theory Spec2Isabelle
  imports Main "HOL-Library.Sublist"
begin

section \<open>JavaScript values used by \<^verbatim>\<open>src/neovim.ts\<close>\<close>

text \<open>
  Strings are the UTF-8 bytes of the JavaScript string. Numbers are the integers among
  the JavaScript numbers (process ids, buffer ids, lines and columns); a digit run is
  read by \<open>parseInt\<close> as its decimal value, which is what JavaScript computes for
  every run below \<open>2^53\<close>.

  A thrown value is either an \<^verbatim>\<open>Error\<close> object with its message or some other
  value; the source tells them apart with \<^verbatim>\<open>instanceof Error\<close>.

  An optional field or parameter is an \<open>option\<close>, \<open>None\<close> for \<^verbatim>\<open>undefined\<close>.
  Records keep the field names of the interfaces; where two interfaces share a name the
  fields carry a prefix (\<open>b_\<close> for a buffer entry, \<open>cp_\<close> for the cursor position,
  \<open>of_\<close> for \<^verbatim>\<open>NeovimOpenFileResult\<close>, \<open>ex_\<close> for
  \<^verbatim>\<open>NeovimExecuteResult\<close>), and the field \<^verbatim>\<open>instance\<close> is \<open>instance_of\<close>.
  The parameter \<^verbatim>\<open>pid\<close> of the operations is \<open>p\<close>.
\<close>

datatype exn = Error string | Thrown

text \<open>\<^verbatim>\<open>error instanceof Error ? error.message : 'Unknown error'\<close>\<close>

definition error_message :: "exn \<Rightarrow> string" where
  "error_message e = (case e of Error m \<Rightarrow> m | Thrown \<Rightarrow> ''Unknown error'')"

text \<open>\<^verbatim>\<open>cmdError instanceof Error ? cmdError.message : 'Command executed (may have failed)'\<close>\<close>

definition cmd_error_message :: "exn \<Rightarrow> string" where
  "cmd_error_message e =
     (case e of Error m \<Rightarrow> m | Thrown \<Rightarrow> ''Command executed (may have failed)'')"

definition startsWith :: "string \<Rightarrow> string \<Rightarrow> bool" where
  "startsWith s p = (take (length p) s = p)"

definition endsWith :: "string \<Rightarrow> string \<Rightarrow> bool" where
  "endsWith s p = (length p \<le> length s \<and> drop (length s - length p) s = p)"

definition is_digit :: "char \<Rightarrow> bool" where
  "is_digit c = (c \<in> set ''0123456789'')"

definition digit_value :: "char \<Rightarrow> int" where
  "digit_value c = int (of_char c) - 48"

text \<open>\<^verbatim>\<open>parseInt(ds, 10)\<close> on a non-empty run of decimal digits.\<close>

definition parseInt :: "string \<Rightarrow> int" where
  "parseInt ds = foldl (\<lambda>acc c. 10 * acc + digit_value c) 0 ds"

text \<open>The decimal text of a number in a template literal, \<^verbatim>\<open>`${n}`\<close>.\<close>

fun string_of_nat :: "nat \<Rightarrow> string" where
  "string_of_nat n =
     (if n < 10 then [''0123456789'' ! n]
      else string_of_nat (n div 10) @ [''0123456789'' ! (n mod 10)])"

declare string_of_nat.simps [simp del]

definition string_of_int :: "int \<Rightarrow> string" where
  "string_of_int i = (if i < 0 then ''-'' @ string_of_nat (nat (- i)) else string_of_nat (nat i))"

text \<open>
  \<^verbatim>\<open>String.prototype.trim\<close> removes white space and line terminators from both ends.
  On UTF-8 bytes these are the one-byte characters TAB, LF, VT, FF, CR and SP, the
  two-byte U+00A0, and the three-byte U+1680, U+2000 to U+200A, U+2028, U+2029, U+202F,
  U+205F, U+3000 and U+FEFF.
\<close>

definition ws1 :: "char \<Rightarrow> bool" where
  "ws1 c = (of_char c \<in> {9, 10, 11, 12, 13, 32 :: nat})"

definition ws2 :: "char \<Rightarrow> char \<Rightarrow> bool" where
  "ws2 c d = (of_char c = (0xC2 :: nat) \<and> of_char d = (0xA0 :: nat))"

definition ws3 :: "char \<Rightarrow> char \<Rightarrow> char \<Rightarrow> bool" where
  "ws3 c d e =
     (let a = of_char c :: nat; b = of_char d :: nat; x = of_char e :: nat in
      (a = 0xE1 \<and> b = 0x9A \<and> x = 0x80) \<or>
      (a = 0xE2 \<and> b = 0x80 \<and> (0x80 \<le> x \<and> x \<le> 0x8A \<or> x = 0xA8 \<or> x = 0xA9 \<or> x = 0xAF)) \<or>
      (a = 0xE2 \<and> b = 0x81 \<and> x = 0x9F) \<or>
      (a = 0xE3 \<and> b = 0x80 \<and> x = 0x80) \<or>
      (a = 0xEF \<and> b = 0xBB \<and> x = 0xBF))"

fun trimStart :: "string \<Rightarrow> string" where
  "trimStart (c # d # e # s) =
     (if ws1 c then trimStart (d # e # s)
      else if ws2 c d then trimStart (e # s)
      else if ws3 c d e then trimStart s
      else c # d # e # s)"
| "trimStart [c, d] =
     (if ws1 c then trimStart [d] else if ws2 c d then [] else [c, d])"
| "trimStart [c] = (if ws1 c then [] else [c])"
| "trimStart [] = []"

text \<open>The same from the end, on the reversed bytes.\<close>

fun trimEnd_rev :: "string \<Rightarrow> string" where
  "trimEnd_rev (e # d # c # s) =
     (if ws1 e then trimEnd_rev (d # c # s)
      else if ws2 d e then trimEnd_rev (c # s)
      else if ws3 c d e then trimEnd_rev s
      else e # d # c # s)"
| "trimEnd_rev [e, d] =
     (if ws1 e then trimEnd_rev [d] else if ws2 d e then [] else [e, d])"
| "trimEnd_rev [e] = (if ws1 e then [] else [e])"
| "trimEnd_rev [] = []"

definition trim :: "string \<Rightarrow> string" where
  "trim s = rev (trimEnd_rev (rev (trimStart s)))"

text \<open>\<^verbatim>\<open>xs[i]\<close>: \<^verbatim>\<open>undefined\<close> beyond the end of the array.\<close>

definition js_index :: "'a list \<Rightarrow> nat \<Rightarrow> 'a option" where
  "js_index xs i = (if i < length xs then Some (xs ! i) else None)"

section \<open>Socket discovery\<close>

record NeovimInstance =
  socket :: string
  pid :: int

text \<open>
  The file system as the three calls of \<^verbatim>\<open>fs\<close> see it: \<^verbatim>\<open>existsSync\<close> never
  throws, \<^verbatim>\<open>readdirSync\<close> and \<^verbatim>\<open>statSync\<close> throw or return. Of the
  \<^verbatim>\<open>Stats\<close> object only \<^verbatim>\<open>isSocket()\<close> is read.
\<close>

record Stats =
  isSocket :: bool

record filesystem =
  existsSync :: "string \<Rightarrow> bool"
  readdirSync :: "string \<Rightarrow> exn + string list"
  statSync :: "string \<Rightarrow> exn + Stats"

definition tmpDir :: string where
  "tmpDir = ''/tmp''"

text \<open>\<^verbatim>\<open>join(tmpDir, file)\<close> for a directory entry, which has no separator in it.\<close>

definition join :: "string \<Rightarrow> string \<Rightarrow> string" where
  "join dir file = dir @ ''/'' @ file"

text \<open>
  \<^verbatim>\<open>file.match(/nvim-(\d+)\.sock/)\<close>: the expression is not anchored, so the match
  is the leftmost place where \<^verbatim>\<open>nvim-\<close>, a longest non-empty run of digits and
  \<^verbatim>\<open>.sock\<close> follow one another. \<open>match_here\<close> tries one place and returns the
  captured digits.
\<close>

definition match_here :: "string \<Rightarrow> string option" where
  "match_here s =
     (if startsWith s ''nvim-'' then
        (let rest = drop 5 s; ds = takeWhile is_digit rest in
         if ds \<noteq> [] \<and> startsWith (dropWhile is_digit rest) ''.sock'' then Some ds else None)
      else None)"

fun pidMatch :: "string \<Rightarrow> string option" where
  "pidMatch [] = None"
| "pidMatch (c # cs) =
     (case match_here (c # cs) of Some ds \<Rightarrow> Some ds | None \<Rightarrow> pidMatch cs)"

text \<open>The body of the \<^verbatim>\<open>for (const file of files)\<close> loop, entry by entry.\<close>

fun scan_files :: "filesystem \<Rightarrow> string list \<Rightarrow> NeovimInstance list" where
  "scan_files fs [] = []"
| "scan_files fs (file # files) =
     (if startsWith file ''nvim-'' \<and> endsWith file ''.sock'' then
        (let fullPath = join tmpDir file in
         case statSync fs fullPath of
           Inl err \<Rightarrow> scan_files fs files
         | Inr stats \<Rightarrow>
             if isSocket stats then
               (case pidMatch file of
                  Some ds \<Rightarrow> \<lparr>socket = fullPath, pid = parseInt ds\<rparr> # scan_files fs files
                | None \<Rightarrow> scan_files fs files)
             else scan_files fs files)
      else scan_files fs files)"

definition findNeovimSockets :: "filesystem \<Rightarrow> NeovimInstance list" where
  "findNeovimSockets fs =
     (if \<not> existsSync fs tmpDir then []
      else case readdirSync fs tmpDir of
             Inl err \<Rightarrow> []
           | Inr files \<Rightarrow> scan_files fs files)"

text \<open>\<^verbatim>\<open>sockets.find((socket) => socket.pid === pid) || null\<close>\<close>

definition getNeovimInstance :: "filesystem \<Rightarrow> int \<Rightarrow> NeovimInstance option" where
  "getNeovimInstance fs p = find (\<lambda>s. pid s = p) (findNeovimSockets fs)"

section \<open>The remote side and the log of remote calls\<close>

text \<open>
  Every awaited call of the source on the \<^verbatim>\<open>neovim\<close> client is a request:
  \<^verbatim>\<open>attach({ socket })\<close>, \<^verbatim>\<open>nvim.call('getcwd')\<close>, \<^verbatim>\<open>nvim.buffer\<close>,
  \<^verbatim>\<open>buffer.name\<close>, \<^verbatim>\<open>nvim.call('getpos', '.')\<close>, \<^verbatim>\<open>nvim.buffers\<close>,
  \<^verbatim>\<open>buffer.loaded\<close>, \<^verbatim>\<open>nvim.command(s)\<close>, \<^verbatim>\<open>nvim.input(s)\<close>,
  \<^verbatim>\<open>nvim.call('cursor', [l, c])\<close> and \<^verbatim>\<open>nvim.close()\<close>. A buffer is its id.
\<close>

datatype request =
    Attach string
  | Call_getcwd
  | Get_buffer
  | Buffer_name int
  | Call_getpos
  | Get_buffers
  | Buffer_loaded int
  | Command string
  | Input string
  | Call_cursor int int
  | Close

text \<open>
  The log of an operation records when a request is dispatched and when its promise
  settles and resumes the code that awaits it: it resolves with a reply, or it rejects
  with a thrown value.
\<close>

datatype event = Dispatch request | Resolve request | Reject request exn

type_synonym log = "event list"

text \<open>
  The remote side is any deterministic responder: the outcome of a request (a thrown
  value or a reply) may depend on the request and on everything logged before it is
  dispatched. The reply of \<^verbatim>\<open>nvim.command\<close> is a string or nothing
  (\<^verbatim>\<open>undefined\<close>); \<^verbatim>\<open>getpos\<close> replies with an array of numbers.

  The remote side also stands for the timing. When several things can happen next (the
  reply to one of the requests in flight arrives, a piece of code whose reply has arrived
  goes on), \<open>next_turn\<close> picks one of them by its place in the queue, from everything
  logged so far. What is proved below holds for every \<open>next_turn\<close>.
\<close>

record remote =
  on_attach :: "log \<Rightarrow> string \<Rightarrow> exn + unit"
  on_getcwd :: "log \<Rightarrow> exn + string"
  on_buffer :: "log \<Rightarrow> exn + int"
  on_buffer_name :: "log \<Rightarrow> int \<Rightarrow> exn + string"
  on_getpos :: "log \<Rightarrow> exn + int list"
  on_buffers :: "log \<Rightarrow> exn + int list"
  on_buffer_loaded :: "log \<Rightarrow> int \<Rightarrow> exn + bool"
  on_command :: "log \<Rightarrow> string \<Rightarrow> exn + string option"
  on_input :: "log \<Rightarrow> string \<Rightarrow> exn + unit"
  on_cursor :: "log \<Rightarrow> int \<Rightarrow> int \<Rightarrow> exn + unit"
  on_close :: "log \<Rightarrow> exn + unit"
  next_turn :: "log \<Rightarrow> nat"

text \<open>
  Besides the code of the operation itself, the callbacks that
  \<^verbatim>\<open>allBuffers.map(async (buffer, index) => { ... })\<close> has started run in the
  background. A callback, with its index and its buffer, is in one of three places:
  its \<^verbatim>\<open>buffer.name\<close> request is in flight (with the reply that will come); the
  name has arrived and the callback is about to go on; its \<^verbatim>\<open>buffer.loaded\<close>
  request is in flight. The callbacks are kept in a queue: those that are about to go on
  first, then the requests in flight in the order of their dispatch.
\<close>

datatype callback =
    Awaits_name nat int "exn + string"
  | Resumes nat int string
  | Awaits_loaded nat int string "exn + bool"

type_synonym state = "log \<times> callback list"

text \<open>
  An asynchronous computation takes the log and the callbacks in the background and
  returns a thrown value or a result, with the new log and callbacks.
\<close>

type_synonym 'a async = "state \<Rightarrow> (exn + 'a) \<times> state"

definition return :: "'a \<Rightarrow> 'a async" where
  "return x = (\<lambda>s. (Inr x, s))"

definition throw :: "exn \<Rightarrow> 'a async" where
  "throw e = (\<lambda>s. (Inl e, s))"

definition bind :: "'a async \<Rightarrow> ('a \<Rightarrow> 'b async) \<Rightarrow> 'b async" where
  "bind m f = (\<lambda>s. case m s of (Inl e, s') \<Rightarrow> (Inl e, s') | (Inr x, s') \<Rightarrow> f x s')"

text \<open>\<^verbatim>\<open>try { m } catch (e) { h e }\<close>\<close>

definition try_catch :: "'a async \<Rightarrow> (exn \<Rightarrow> 'a async) \<Rightarrow> 'a async" where
  "try_catch m h = (\<lambda>s. case m s of (Inl e, s') \<Rightarrow> h e s' | (Inr x, s') \<Rightarrow> (Inr x, s'))"

definition settle :: "request \<Rightarrow> exn + 'a \<Rightarrow> event" where
  "settle r outcome = (case outcome of Inl e \<Rightarrow> Reject r e | Inr x \<Rightarrow> Resolve r)"

text \<open>
  One turn of the callback at place \<open>k\<close> of the queue. The reply to its
  \<^verbatim>\<open>buffer.name\<close> request arrives: a rejection ends the callback, a name makes it
  ready to go on. A callback that goes on dispatches \<^verbatim>\<open>buffer.loaded\<close>. The reply
  to that request arrives: the callback ends, rejected or fulfilled with what its entry
  needs. The \<open>signal\<close> is what the turn means for \<^verbatim>\<open>Promise.all\<close>.
\<close>

datatype signal = Rejected exn | Fulfilled nat int string bool | Pending

definition step_callback :: "remote \<Rightarrow> state \<Rightarrow> nat \<Rightarrow> state \<times> signal" where
  "step_callback nv s k =
     (case s of (l, bg) \<Rightarrow>
        (let others = take k bg @ drop (Suc k) bg in
         case bg ! k of
           Awaits_name i buffer reply \<Rightarrow>
             (case reply of
                Inl e \<Rightarrow> ((l @ [Reject (Buffer_name buffer) e], others), Rejected e)
              | Inr name \<Rightarrow>
                  ((l @ [Resolve (Buffer_name buffer)], Resumes i buffer name # others), Pending))
         | Resumes i buffer name \<Rightarrow>
             ((l @ [Dispatch (Buffer_loaded buffer)],
               others @ [Awaits_loaded i buffer name (on_buffer_loaded nv l buffer)]), Pending)
         | Awaits_loaded i buffer name reply \<Rightarrow>
             (case reply of
                Inl e \<Rightarrow> ((l @ [Reject (Buffer_loaded buffer) e], others), Rejected e)
              | Inr loaded \<Rightarrow>
                  ((l @ [Resolve (Buffer_loaded buffer)], others),
                   Fulfilled i buffer name loaded))))"

text \<open>The turns that a callback still has to take; every turn takes one away.\<close>

fun turns_left :: "callback \<Rightarrow> nat" where
  "turns_left (Awaits_name i buffer reply) = 3"
| "turns_left (Resumes i buffer name) = 2"
| "turns_left (Awaits_loaded i buffer name reply) = 1"

definition work_left :: "callback list \<Rightarrow> nat" where
  "work_left bg = sum_list (map turns_left bg)"

text \<open>
  The event loop while the code of the operation waits. The callbacks in the background
  take turns, picked by \<open>next_turn\<close>, until the operation itself is picked. When the
  operation can go on at once (\<open>ready\<close>), it is at place 0 of the queue, before the
  callbacks; when it waits for the reply to the request it has just dispatched, it is at
  the last place, after them.
\<close>

function background :: "remote \<Rightarrow> bool \<Rightarrow> state \<Rightarrow> state" where
  "background nv ready (l, bg) =
     (let c = next_turn nv l mod Suc (length bg);
          k = (if ready then c - 1 else c)
      in if (if ready then c = 0 else c = length bg) then (l, bg)
         else background nv ready (fst (step_callback nv (l, bg) k)))"
  by pat_completeness auto
termination
proof -
  have less: "work_left (snd (fst (step_callback nv (l, bg) k))) < work_left bg"
    if "k < length bg" for nv l bg k
  proof -
    from that have "bg = take k bg @ bg ! k # drop (Suc k) bg"
      by (rule id_take_nth_drop)
    then have "sum_list (map turns_left bg) =
        sum_list (map turns_left (take k bg @ bg ! k # drop (Suc k) bg))"
      by simp
    then have "work_left bg = work_left (take k bg @ drop (Suc k) bg) + turns_left (bg ! k)"
      by (simp add: work_left_def)
    then show ?thesis
      by (cases "bg ! k")
         (auto simp: step_callback_def work_left_def Let_def split: sum.splits)
  qed
  show ?thesis
  proof (relation "measure (\<lambda>(nv, ready, l, bg). work_left bg)")
    show "wf (measure (\<lambda>(nv, ready, l, bg). work_left bg))" by simp
  next
    fix nv :: remote and ready :: bool and l :: log and bg :: "callback list" and c k :: nat
    assume c: "c = next_turn nv l mod Suc (length bg)"
      and k: "k = (if ready then c - 1 else c)"
      and go: "\<not> (if ready then c = 0 else c = length bg)"
    from c have "c < Suc (length bg)" by simp
    with k go have "k < length bg" by (auto split: if_splits)
    then have "work_left (snd (fst (step_callback nv (l, bg) k))) < work_left bg"
      by (rule less)
    then show "((nv, ready, fst (step_callback nv (l, bg) k)), nv, ready, l, bg)
        \<in> measure (\<lambda>(nv, ready, l, bg). work_left bg)"
      by (simp add: case_prod_unfold)
  qed
qed

declare background.simps [simp del]

text \<open>
  \<^verbatim>\<open>await\<close> of one request: it is dispatched; the operation goes on when the reply
  has arrived and it is picked again. Callbacks in the background may take turns
  before the reply and between the reply and the operation going on.
\<close>

definition await :: "remote \<Rightarrow> request \<Rightarrow> (log \<Rightarrow> exn + 'a) \<Rightarrow> 'a async" where
  "await nv r respond =
     (\<lambda>(l, bg).
        (let reply = respond l in
         case background nv False (l @ [Dispatch r], bg) of
           (l', bg') \<Rightarrow> (reply, background nv True (l' @ [settle r reply], bg'))))"

definition attach :: "remote \<Rightarrow> string \<Rightarrow> unit async" where
  "attach nv s = await nv (Attach s) (\<lambda>l. on_attach nv l s)"

definition nvim_call_getcwd :: "remote \<Rightarrow> string async" where
  "nvim_call_getcwd nv = await nv Call_getcwd (on_getcwd nv)"

definition nvim_buffer :: "remote \<Rightarrow> int async" where
  "nvim_buffer nv = await nv Get_buffer (on_buffer nv)"

definition buffer_name :: "remote \<Rightarrow> int \<Rightarrow> string async" where
  "buffer_name nv b = await nv (Buffer_name b) (\<lambda>l. on_buffer_name nv l b)"

definition nvim_call_getpos :: "remote \<Rightarrow> int list async" where
  "nvim_call_getpos nv = await nv Call_getpos (on_getpos nv)"

definition nvim_buffers :: "remote \<Rightarrow> int list async" where
  "nvim_buffers nv = await nv Get_buffers (on_buffers nv)"

definition nvim_command :: "remote \<Rightarrow> string \<Rightarrow> string option async" where
  "nvim_command nv s = await nv (Command s) (\<lambda>l. on_command nv l s)"

definition nvim_input :: "remote \<Rightarrow> string \<Rightarrow> unit async" where
  "nvim_input nv s = await nv (Input s) (\<lambda>l. on_input nv l s)"

definition nvim_call_cursor :: "remote \<Rightarrow> int \<Rightarrow> int \<Rightarrow> unit async" where
  "nvim_call_cursor nv line col = await nv (Call_cursor line col) (\<lambda>l. on_cursor nv l line col)"

definition nvim_close :: "remote \<Rightarrow> unit async" where
  "nvim_close nv = await nv Close (on_close nv)"

text \<open>
  The \<^verbatim>\<open>catch (rpcError)\<close> block that all three operations share: close the
  connection, ignore what closing throws, and throw the error again.
\<close>

definition close_and_rethrow :: "remote \<Rightarrow> exn \<Rightarrow> 'a async" where
  "close_and_rethrow nv rpcError =
     bind (try_catch (nvim_close nv) (\<lambda>closeError. return ())) (\<lambda>_. throw rpcError)"

text \<open>
  A public operation starts with an empty log and nothing in the background, and never
  throws: its outermost \<^verbatim>\<open>catch (error)\<close> turns every thrown value into a result.
  Callbacks that are still in the background when the operation returns go on, as far as
  \<open>next_turn\<close> lets them; what they do is in the log of the operation.
\<close>

definition run_catching :: "remote \<Rightarrow> 'a async \<Rightarrow> (exn \<Rightarrow> 'a) \<Rightarrow> 'a \<times> log" where
  "run_catching nv m h =
     (case m ([], []) of
        (Inl e, s) \<Rightarrow> (h e, fst (background nv False s))
      | (Inr x, s) \<Rightarrow> (x, fst (background nv False s)))"

text \<open>The requests of a log in the order of their dispatch.\<close>

fun dispatched :: "log \<Rightarrow> request list" where
  "dispatched [] = []"
| "dispatched (Dispatch r # l) = r # dispatched l"
| "dispatched (Resolve r # l) = dispatched l"
| "dispatched (Reject r e # l) = dispatched l"

section \<open>The snapshot: \<^verbatim>\<open>getNeovimInstanceDetails\<close>\<close>

record BufferInfo =
  b_id :: int
  b_name :: string
  b_loaded :: bool
  b_current :: bool

text \<open>
  \<^verbatim>\<open>[pos[1], pos[2]]\<close> of the reply of \<^verbatim>\<open>getpos\<close>: an index beyond the reply
  gives \<^verbatim>\<open>undefined\<close>.
\<close>

record CursorPosition =
  cp_line :: "int option"
  cp_column :: "int option"

record NeovimInstanceDetails =
  instance_of :: NeovimInstance
  workingDirectory :: "string option"
  currentFile :: "string option"
  buffers :: "BufferInfo list option"
  cursorPosition :: "CursorPosition option"
  error :: "string option"

text \<open>What the callback of \<^verbatim>\<open>allBuffers.map\<close> returns once it has both replies.\<close>

definition buffer_info :: "int \<Rightarrow> int \<Rightarrow> string \<Rightarrow> bool \<Rightarrow> BufferInfo" where
  "buffer_info currentBuffer buffer name loaded =
     \<lparr>b_id = buffer,
      b_name = (if name \<noteq> [] then name else ''[Buffer '' @ string_of_int buffer @ '']''),
      b_loaded = loaded,
      b_current = (buffer = currentBuffer)\<rparr>"

text \<open>
  \<^verbatim>\<open>Promise.all(allBuffers.map(async (buffer, index) => { ... }))\<close>.
  \<^verbatim>\<open>map\<close> calls the callback for every buffer in turn, and an \<^verbatim>\<open>async\<close>
  function runs until its first \<^verbatim>\<open>await\<close>: every callback dispatches its
  \<^verbatim>\<open>buffer.name\<close> request and joins the queue before any reply is looked at.
\<close>

fun start_callbacks :: "remote \<Rightarrow> nat \<Rightarrow> int list \<Rightarrow> state \<Rightarrow> state" where
  "start_callbacks nv index [] s = s"
| "start_callbacks nv index (buffer # bs) (l, bg) =
     start_callbacks nv (Suc index) bs
       (l @ [Dispatch (Buffer_name buffer)],
        bg @ [Awaits_name index buffer (on_buffer_name nv l buffer)])"

text \<open>
  The operation then waits for \<^verbatim>\<open>Promise.all\<close> while the callbacks take their
  turns. A callback that is fulfilled puts its entry at its index of the result. When a
  callback is rejected, \<^verbatim>\<open>Promise.all\<close> rejects with that error and the operation
  goes on in its \<^verbatim>\<open>catch\<close> block; the other callbacks stay in the background and
  go on taking turns. When no callback is left, \<^verbatim>\<open>Promise.all\<close> resolves with
  the entries in the order of the buffers.
\<close>

function await_all ::
  "remote \<Rightarrow> int \<Rightarrow> state \<Rightarrow> BufferInfo option list \<Rightarrow> (exn + BufferInfo list) \<times> state" where
  "await_all nv currentBuffer (l, bg) results =
     (if bg = [] then (Inr (List.map_filter (\<lambda>entry. entry) results), (l, bg))
      else
        case step_callback nv (l, bg) (next_turn nv l mod length bg) of
          (s', Rejected e) \<Rightarrow> (Inl e, background nv True s')
        | (s', Fulfilled i buffer name loaded) \<Rightarrow>
            await_all nv currentBuffer s'
              (results[i := Some (buffer_info currentBuffer buffer name loaded)])
        | (s', Pending) \<Rightarrow> await_all nv currentBuffer s' results)"
  by pat_completeness auto
termination
proof -
  have less: "work_left (snd (fst (step_callback nv (l, bg) k))) < work_left bg"
    if "k < length bg" for nv l bg k
  proof -
    from that have "bg = take k bg @ bg ! k # drop (Suc k) bg"
      by (rule id_take_nth_drop)
    then have "sum_list (map turns_left bg) =
        sum_list (map turns_left (take k bg @ bg ! k # drop (Suc k) bg))"
      by simp
    then have "work_left bg = work_left (take k bg @ drop (Suc k) bg) + turns_left (bg ! k)"
      by (simp add: work_left_def)
    then show ?thesis
      by (cases "bg ! k")
         (auto simp: step_callback_def work_left_def Let_def split: sum.splits)
  qed
  have turn: "((nv, currentBuffer, s', results'), nv, currentBuffer, (l, bg), results)
      \<in> measure (\<lambda>(nv, currentBuffer, (l, bg), results). work_left bg)"
    if "bg \<noteq> []" and "(s', sg) = step_callback nv (l, bg) (next_turn nv l mod length bg)"
    for nv currentBuffer s' sg l bg and results results' :: "BufferInfo option list"
  proof -
    from that(1) have "next_turn nv l mod length bg < length bg" by simp
    then have "work_left (snd (fst (step_callback nv (l, bg) (next_turn nv l mod length bg))))
        < work_left bg"
      by (rule less)
    with that(2) have "work_left (snd s') < work_left bg"
      by (metis fst_conv)
    then show ?thesis
      by (simp add: case_prod_unfold)
  qed
  show ?thesis
    by (relation "measure (\<lambda>(nv, currentBuffer, (l, bg), results). work_left bg)")
       (simp, (erule (1) turn)+)
qed

declare await_all.simps [simp del]

definition promise_all_buffers :: "remote \<Rightarrow> int \<Rightarrow> int list \<Rightarrow> BufferInfo list async" where
  "promise_all_buffers nv currentBuffer allBuffers =
     (\<lambda>s. await_all nv currentBuffer (start_callbacks nv 0 allBuffers s)
            (replicate (length allBuffers) None))"

text \<open>The inner \<^verbatim>\<open>try\<close> block, up to its \<^verbatim>\<open>return\<close>.\<close>

definition snapshot_session :: "remote \<Rightarrow> NeovimInstance \<Rightarrow> NeovimInstanceDetails async" where
  "snapshot_session nv inst =
     bind (nvim_call_getcwd nv) (\<lambda>workingDirectory.
     bind (nvim_buffer nv) (\<lambda>currentBuffer.
     bind (buffer_name nv currentBuffer) (\<lambda>currentFile.
     bind (nvim_call_getpos nv) (\<lambda>pos.
     bind (nvim_buffers nv) (\<lambda>allBuffers.
     bind (promise_all_buffers nv currentBuffer allBuffers) (\<lambda>buffers.
     bind (nvim_close nv) (\<lambda>_.
     return
       \<lparr>instance_of = inst,
        workingDirectory = Some workingDirectory,
        currentFile = (if currentFile \<noteq> [] then Some currentFile else None),
        buffers = Some buffers,
        cursorPosition = Some \<lparr>cp_line = js_index pos 1, cp_column = js_index pos 2\<rparr>,
        error = None\<rparr>)))))))"

definition getNeovimInstanceDetails ::
  "filesystem \<Rightarrow> remote \<Rightarrow> int \<Rightarrow> NeovimInstanceDetails \<times> log" where
  "getNeovimInstanceDetails fs nv p =
     (case getNeovimInstance fs p of
        None \<Rightarrow>
          (\<lparr>instance_of = \<lparr>socket = [], pid = p\<rparr>,
            workingDirectory = None, currentFile = None, buffers = None,
            cursorPosition = None,
            error = Some (''Neovim instance with PID '' @ string_of_int p @ '' not found'')\<rparr>,
           [])
      | Some inst \<Rightarrow>
          run_catching nv
            (bind (attach nv (socket inst)) (\<lambda>_.
             try_catch (snapshot_session nv inst) (close_and_rethrow nv)))
            (\<lambda>error.
               \<lparr>instance_of = inst,
                workingDirectory = None, currentFile = None, buffers = None,
                cursorPosition = None,
                error = Some (''Failed to connect to Neovim instance: '' @ error_message error)\<rparr>))"

section \<open>The navigator: \<^verbatim>\<open>openFileInNeovim\<close>\<close>

record NeovimOpenFileResult =
  of_success :: bool
  of_message :: string
  of_file :: "string option"
  of_line :: "int option"
  of_column :: "int option"
  of_error :: "string option"

text \<open>
  \<^verbatim>\<open>column || 1\<close> and \<^verbatim>\<open>endColumn || 999\<close>: the default stands in for
  \<^verbatim>\<open>undefined\<close> and for every falsy number, which among the integers is 0.
\<close>

definition or_default :: "int option \<Rightarrow> int \<Rightarrow> int" where
  "or_default x d = (case x of None \<Rightarrow> d | Some v \<Rightarrow> if v \<noteq> 0 then v else d)"

text \<open>The positioning part of the inner \<^verbatim>\<open>try\<close> block; it returns \<^verbatim>\<open>resultMessage\<close>.\<close>

definition jump_and_select ::
  "remote \<Rightarrow> string \<Rightarrow> int option \<Rightarrow> int option \<Rightarrow> int option \<Rightarrow> int option \<Rightarrow> string async" where
  "jump_and_select nv filePath line column endLine endColumn =
     (case line of
        None \<Rightarrow> return (''Opened '' @ filePath)
      | Some ln \<Rightarrow>
          (let col = or_default column 1 in
           bind (nvim_call_cursor nv ln col) (\<lambda>_.
           (let resultMessage =
                  ''Opened '' @ filePath @ '' at line '' @ string_of_int ln @
                  '', column '' @ string_of_int col in
            case endLine of
              None \<Rightarrow> return resultMessage
            | Some el \<Rightarrow>
                (let endCol = or_default endColumn 999 in
                 bind (nvim_input nv ''v'') (\<lambda>_.
                 bind (nvim_call_cursor nv el endCol) (\<lambda>_.
                 return
                   (resultMessage @ '' (selected to line '' @ string_of_int el @
                    '', column '' @ string_of_int endCol @ '')''))))))))"

definition open_session ::
  "remote \<Rightarrow> string \<Rightarrow> int option \<Rightarrow> int option \<Rightarrow> int option \<Rightarrow> int option \<Rightarrow>
     NeovimOpenFileResult async" where
  "open_session nv filePath line column endLine endColumn =
     bind (nvim_command nv (''edit '' @ filePath)) (\<lambda>_.
     bind (nvim_command nv ''checktime'') (\<lambda>_.
     bind (jump_and_select nv filePath line column endLine endColumn) (\<lambda>resultMessage.
     bind (nvim_close nv) (\<lambda>_.
     return
       \<lparr>of_success = True,
        of_message = resultMessage,
        of_file = Some filePath,
        of_line = line,
        of_column = column,
        of_error = None\<rparr>))))"

definition openFileInNeovim ::
  "filesystem \<Rightarrow> remote \<Rightarrow> int \<Rightarrow> string \<Rightarrow> int option \<Rightarrow> int option \<Rightarrow> int option \<Rightarrow>
     int option \<Rightarrow> NeovimOpenFileResult \<times> log" where
  "openFileInNeovim fs nv p filePath line column endLine endColumn =
     (case getNeovimInstance fs p of
        None \<Rightarrow>
          (\<lparr>of_success = False,
            of_message = ''Neovim instance with PID '' @ string_of_int p @ '' not found'',
            of_file = None, of_line = None, of_column = None,
            of_error = Some (''PID '' @ string_of_int p @ '' not found'')\<rparr>,
           [])
      | Some inst \<Rightarrow>
          run_catching nv
            (bind (attach nv (socket inst)) (\<lambda>_.
             try_catch (open_session nv filePath line column endLine endColumn)
               (close_and_rethrow nv)))
            (\<lambda>error.
               \<lparr>of_success = False,
                of_message = ''Failed to open file in Neovim'',
                of_file = Some filePath, of_line = None, of_column = None,
                of_error =
                  Some (''Failed to connect to Neovim instance: '' @ error_message error)\<rparr>))"

section \<open>The executor: \<^verbatim>\<open>executeInNeovim\<close>\<close>

record NeovimExecuteResult =
  ex_success :: bool
  ex_message :: string
  ex_command :: "string option"
  ex_output :: "string option"
  ex_error :: "string option"

text \<open>\<^verbatim>\<open>result ? String(result) : ''\<close>\<close>

definition string_of_result :: "string option \<Rightarrow> string" where
  "string_of_result result = (case result of None \<Rightarrow> [] | Some s \<Rightarrow> if s \<noteq> [] then s else [])"

text \<open>The separator \<^verbatim>\<open>' \<rightarrow> '\<close> of the message: a space, U+2192 and a space.\<close>

definition arrow :: string where
  "arrow = '' '' @ [CHR 0xE2, CHR 0x86, CHR 0x92] @ '' ''"

text \<open>
  The \<^verbatim>\<open>try\<close> around \<^verbatim>\<open>nvim.command\<close>: whatever the call throws becomes the
  output text.
\<close>

definition command_output :: "remote \<Rightarrow> string \<Rightarrow> string async" where
  "command_output nv cmd =
     try_catch (bind (nvim_command nv cmd) (\<lambda>result. return (string_of_result result)))
       (\<lambda>cmdError. return (cmd_error_message cmdError))"

text \<open>The \<^verbatim>\<open>if (isKeySequence)\<close> statement; it returns \<^verbatim>\<open>output\<close> and \<^verbatim>\<open>resultMessage\<close>.\<close>

definition run_command :: "remote \<Rightarrow> string \<Rightarrow> bool \<Rightarrow> (string \<times> string) async" where
  "run_command nv command isKeySequence =
     (if isKeySequence then
        bind (nvim_input nv command) (\<lambda>_.
        return ([], ''Executed key sequence: '' @ command))
      else
        bind (if startsWith command '':'' then
                (let cleanCommand = drop 1 command in command_output nv cleanCommand)
              else command_output nv command) (\<lambda>output.
        return
          (output,
           ''Executed command: '' @ command @
           (if output \<noteq> [] \<and> trim output \<noteq> [] then arrow @ trim output else []))))"

definition exec_session :: "remote \<Rightarrow> string \<Rightarrow> bool \<Rightarrow> NeovimExecuteResult async" where
  "exec_session nv command isKeySequence =
     bind (run_command nv command isKeySequence) (\<lambda>(output, resultMessage).
     bind (nvim_close nv) (\<lambda>_.
     return
       \<lparr>ex_success = True,
        ex_message = resultMessage,
        ex_command = Some command,
        ex_output = (if output \<noteq> [] then Some output else None),
        ex_error = None\<rparr>))"

definition executeInNeovim ::
  "filesystem \<Rightarrow> remote \<Rightarrow> int \<Rightarrow> string \<Rightarrow> bool \<Rightarrow> NeovimExecuteResult \<times> log" where
  "executeInNeovim fs nv p command isKeySequence =
     (case getNeovimInstance fs p of
        None \<Rightarrow>
          (\<lparr>ex_success = False,
            ex_message = ''Neovim instance with PID '' @ string_of_int p @ '' not found'',
            ex_command = Some command, ex_output = None,
            ex_error = Some (''PID '' @ string_of_int p @ '' not found'')\<rparr>,
           [])
      | Some inst \<Rightarrow>
          run_catching nv
            (bind (attach nv (socket inst)) (\<lambda>_.
             try_catch (exec_session nv command isKeySequence) (close_and_rethrow nv)))
            (\<lambda>error.
               \<lparr>ex_success = False,
                ex_message = ''Failed to execute command in Neovim'',
                ex_command = Some command, ex_output = None,
                ex_error =
                  Some (''Failed to connect to Neovim instance: '' @ error_message error)\<rparr>))"

section \<open>Concrete file systems and remote sides\<close>

text \<open>
  A \<^verbatim>\<open>/tmp\<close> that holds the given entries, all of them sockets, and a remote side
  that answers every request: two buffers, the first of them current, the cursor at
  line 3, column 7. The other remote sides differ from it in one answer.
\<close>

definition sockets_dir :: "string list \<Rightarrow> filesystem" where
  "sockets_dir files =
     \<lparr>existsSync = (\<lambda>d. True),
      readdirSync = (\<lambda>d. Inr files),
      statSync = (\<lambda>f. Inr \<lparr>isSocket = True\<rparr>)\<rparr>"

definition steady :: remote where
  "steady =
     \<lparr>on_attach = (\<lambda>l s. Inr ()),
      on_getcwd = (\<lambda>l. Inr ''/home/u''),
      on_buffer = (\<lambda>l. Inr 1),
      on_buffer_name = (\<lambda>l b. Inr (if b = 1 then ''/home/u/a.txt'' else [])),
      on_getpos = (\<lambda>l. Inr [0, 3, 7, 0]),
      on_buffers = (\<lambda>l. Inr [1, 2]),
      on_buffer_loaded = (\<lambda>l b. Inr (b = 1)),
      on_command = (\<lambda>l s. Inr None),
      on_input = (\<lambda>l s. Inr ()),
      on_cursor = (\<lambda>l line col. Inr ()),
      on_close = (\<lambda>l. Inr ()),
      next_turn = (\<lambda>l. 0)\<rparr>"

definition refusing :: remote where
  "refusing = steady\<lparr>on_attach := (\<lambda>l s. Inl (Error ''boom''))\<rparr>"

definition failing_getcwd :: remote where
  "failing_getcwd = steady\<lparr>on_getcwd := (\<lambda>l. Inl (Error ''boom''))\<rparr>"


definition failing_close :: remote where
  "failing_close = steady\<lparr>on_close := (\<lambda>l. Inl (Error ''closed''))\<rparr>"

definition rejecting :: remote where
  "rejecting =
     steady\<lparr>on_command := (\<lambda>l s. Inl (Error ''E492: Not an editor command: nosuchcommand''))\<rparr>"

text \<open>
  A remote side that rejects the command and then rejects \<^verbatim>\<open>close\<close>, and one
  where the \<^verbatim>\<open>name\<close> request of buffer 1 is rejected while buffer 2 answers.
\<close>

definition rejecting_unclosed :: remote where
  "rejecting_unclosed = rejecting\<lparr>on_close := (\<lambda>l. Inl (Error ''closed''))\<rparr>"

definition losing_buffer :: remote where
  "losing_buffer =
     steady\<lparr>on_buffer := (\<lambda>l. Inr 2),
            on_buffer_name := (\<lambda>l b. if b = 1 then Inl (Error ''gone'') else Inr ''b.txt'')\<rparr>"


section \<open>The naming pattern of the documentation\<close>

text \<open>
  The README and the specification name the sockets \<^verbatim>\<open>nvim-<pid>.sock\<close>: the whole
  name is \<^verbatim>\<open>nvim-\<close>, a non-empty run of digits and \<^verbatim>\<open>.sock\<close>. This predicate
  follows those words, not the source; the source's test is in \<open>scan_files\<close>.
\<close>

definition spec_socket_name :: "string \<Rightarrow> bool" where
  "spec_socket_name file =
     (startsWith file ''nvim-'' \<and> endsWith file ''.sock'' \<and> 10 < length file \<and>
      list_all is_digit (take (length file - 10) (drop 5 file)))"

section \<open>The order of dispatch\<close>

text \<open>
  A log is sequential when every request settles before the next one is dispatched.
\<close>

fun sequential :: "log \<Rightarrow> bool" where
  "sequential [] = True"
| "sequential (Dispatch r # Resolve r' # l) = (r = r' \<and> sequential l)"
| "sequential (Dispatch r # Reject r' e # l) = (r = r' \<and> sequential l)"
| "sequential l = False"

text \<open>
  What the callbacks of \<^verbatim>\<open>Promise.all\<close> write once their \<^verbatim>\<open>buffer.name\<close>
  requests are dispatched: the settlements of the fetches and the dispatches of
  \<^verbatim>\<open>buffer.loaded\<close>. The events of \<^verbatim>\<open>nvim.close()\<close> may come between them.
\<close>

fun fetch_reaction :: "event \<Rightarrow> bool" where
  "fetch_reaction (Resolve (Buffer_name b)) = True"
| "fetch_reaction (Reject (Buffer_name b) e) = True"
| "fetch_reaction (Dispatch (Buffer_loaded b)) = True"
| "fetch_reaction (Resolve (Buffer_loaded b)) = True"
| "fetch_reaction (Reject (Buffer_loaded b) e) = True"
| "fetch_reaction e = False"

fun close_event :: "event \<Rightarrow> bool" where
  "close_event (Dispatch Close) = True"
| "close_event (Resolve Close) = True"
| "close_event (Reject Close e) = True"
| "close_event e = False"

text \<open>
  A buffer's \<^verbatim>\<open>loaded\<close> request is dispatched only after a \<^verbatim>\<open>name\<close> request of
  that buffer has resolved (\<open>seen\<close> holds the buffers whose name has resolved).
\<close>

fun loaded_after_name :: "int list \<Rightarrow> log \<Rightarrow> bool" where
  "loaded_after_name seen [] = True"
| "loaded_after_name seen (Resolve (Buffer_name b) # l) = loaded_after_name (b # seen) l"
| "loaded_after_name seen (Dispatch (Buffer_loaded b) # l) =
     (b \<in> set seen \<and> loaded_after_name seen l)"
| "loaded_after_name seen (e # l) = loaded_after_name seen l"

section \<open>Properties of computations\<close>

text \<open>
  A computation is \<open>quiet\<close> when, started with nothing in the background, it leaves
  nothing there. It is a \<open>clean_run\<close> when, started with nothing in the background, it
  returns only with nothing in the background and without having logged a rejection.
\<close>

definition quiet :: "'a async \<Rightarrow> bool" where
  "quiet m = (\<forall>l. snd (snd (m (l, []))) = [])"

definition clean_run :: "'a async \<Rightarrow> bool" where
  "clean_run m =
     (\<forall>l x s'. m (l, []) = (Inr x, s') \<longrightarrow>
        (\<exists>q. s' = (l @ q, []) \<and> (\<forall>r e. Reject r e \<notin> set q)))"

text \<open>
  The turns of callbacks. \<open>in_step t bg\<close>: in \<open>t\<close>, what has been logged since the
  \<^verbatim>\<open>name\<close> requests were dispatched, every \<^verbatim>\<open>loaded\<close> request comes after the
  reply to the \<^verbatim>\<open>name\<close> request of its buffer, and that reply is there for every
  callback of \<open>bg\<close> that is about to go on. \<open>turns bg u bg'\<close>: \<open>u\<close> can be what
  callbacks write in turns that lead from \<open>bg\<close> to \<open>bg'\<close>.
\<close>

definition in_step :: "log \<Rightarrow> callback list \<Rightarrow> bool" where
  "in_step t bg =
     (loaded_after_name [] t \<and>
      (\<forall>i b name. Resumes i b name \<in> set bg \<longrightarrow> Resolve (Buffer_name b) \<in> set t))"

definition turns :: "callback list \<Rightarrow> log \<Rightarrow> callback list \<Rightarrow> bool" where
  "turns bg u bg' =
     (list_all fetch_reaction u \<and> (\<forall>t. in_step t bg \<longrightarrow> in_step (t @ u) bg'))"


section \<open>Reasoning about asynchronous computations\<close>

lemma return_eq [simp]: "(return x s = (r, s')) = (r = Inr x \<and> s' = s)"
  by (auto simp: return_def)

lemma throw_eq [simp]: "(throw e s = (r, s')) = (r = Inl e \<and> s' = s)"
  by (auto simp: throw_def)

lemma bind_Inr:
  "(bind m f s = (Inr y, s')) = (\<exists>x s1. m s = (Inr x, s1) \<and> f x s1 = (Inr y, s'))"
  by (auto simp: bind_def split: prod.splits sum.splits)

lemma bind_Inl:
  "(bind m f s = (Inl e, s')) =
     (m s = (Inl e, s') \<or> (\<exists>x s1. m s = (Inr x, s1) \<and> f x s1 = (Inl e, s')))"
  by (auto simp: bind_def split: prod.splits sum.splits)

lemma bind_eq:
  "(bind m f s = (out, s')) =
     ((\<exists>e. m s = (Inl e, s') \<and> out = Inl e) \<or> (\<exists>x s1. m s = (Inr x, s1) \<and> f x s1 = (out, s')))"
  by (auto simp: bind_def split: prod.splits sum.splits)

text \<open>With nothing in the background, waiting changes nothing.\<close>

lemma background_Nil [simp]: "background nv ready (l, []) = (l, [])"
  by (simp add: background.simps)

lemma await_quiet:
  "await nv r respond (l, []) = (respond l, (l @ [Dispatch r, settle r (respond l)], []))"
  by (simp add: await_def Let_def)

lemma await_eq:
  "(await nv r respond (l, []) = (out, s')) =
     (out = respond l \<and> s' = (l @ [Dispatch r, settle r (respond l)], []))"
  by (auto simp: await_quiet)

lemma fst_bind:
  "fst (bind m f s) = (case m s of (Inl e, s') \<Rightarrow> Inl e | (Inr x, s') \<Rightarrow> fst (f x s'))"
  by (simp add: bind_def split: prod.splits sum.splits)

lemma close_and_rethrow_eq:
  "close_and_rethrow nv e s = (Inl e, snd (nvim_close nv s))"
  by (simp add: close_and_rethrow_def bind_def try_catch_def return_def throw_def
      split: prod.splits sum.splits)

lemma nvim_close_quiet:
  "nvim_close nv (l, []) = (on_close nv l, (l @ [Dispatch Close, settle Close (on_close nv l)], []))"
  by (simp add: nvim_close_def await_quiet)

text \<open>
  The skeleton that the three operations share, in one equation: a failed
  \<^verbatim>\<open>attach\<close> goes to the outer handler; a session that returns gives its result; a
  session that throws is followed by one \<^verbatim>\<open>close\<close>, whose outcome is ignored, and
  the outer handler gets the session's error. In both cases the callbacks that are left
  in the background go on.
\<close>

lemma run_session:
  "run_catching nv (bind (attach nv s) (\<lambda>_. try_catch body (close_and_rethrow nv))) h =
     (case on_attach nv [] s of
        Inl e \<Rightarrow> (h e, [Dispatch (Attach s), Reject (Attach s) e])
      | Inr u \<Rightarrow>
          (case body ([Dispatch (Attach s), Resolve (Attach s)], []) of
             (Inr x, st) \<Rightarrow> (x, fst (background nv False st))
           | (Inl e, st) \<Rightarrow> (h e, fst (background nv False (snd (nvim_close nv st))))))"
  by (simp add: run_catching_def bind_def attach_def await_quiet try_catch_def settle_def
      close_and_rethrow_eq split: sum.splits prod.splits)

text \<open>Quiet computations.\<close>

lemma quietD: "quiet m \<Longrightarrow> \<exists>out l'. m (l, []) = (out, (l', []))"
  unfolding quiet_def by (metis prod.collapse)

lemma quiet_return: "quiet (return x)"
  by (simp add: quiet_def return_def)

lemma quiet_await: "quiet (await nv r respond)"
  by (simp add: quiet_def await_quiet)

lemma quiet_bind:
  assumes "quiet m" and "\<And>x. quiet (f x)"
  shows "quiet (bind m f)"
  unfolding quiet_def
proof
  fix l
  from quietD [OF assms(1)] obtain out l1 where m: "m (l, []) = (out, (l1, []))" by blast
  show "snd (snd (bind m f (l, []))) = []"
  proof (cases out)
    case (Inl e)
    with m show ?thesis by (simp add: bind_def)
  next
    case (Inr x)
    from quietD [OF assms(2)] obtain out' l2 where "f x (l1, []) = (out', (l2, []))" by blast
    with m Inr show ?thesis by (simp add: bind_def)
  qed
qed

lemma quiet_try_catch:
  assumes "quiet m" and "\<And>e. quiet (h e)"
  shows "quiet (try_catch m h)"
  unfolding quiet_def
proof
  fix l
  from quietD [OF assms(1)] obtain out l1 where m: "m (l, []) = (out, (l1, []))" by blast
  show "snd (snd (try_catch m h (l, []))) = []"
  proof (cases out)
    case (Inr x)
    with m show ?thesis by (simp add: try_catch_def)
  next
    case (Inl e)
    from quietD [OF assms(2)] obtain out' l2 where "h e (l1, []) = (out', (l2, []))" by blast
    with m Inl show ?thesis by (simp add: try_catch_def)
  qed
qed

lemmas call_defs = nvim_call_getcwd_def nvim_buffer_def buffer_name_def nvim_call_getpos_def
  nvim_buffers_def nvim_command_def nvim_input_def nvim_call_cursor_def nvim_close_def

lemmas quiet_intros = quiet_bind quiet_await quiet_return quiet_try_catch

lemma quiet_jump_and_select: "quiet (jump_and_select nv f line column endLine endColumn)"
  by (cases line; cases endLine)
     (simp_all add: jump_and_select_def call_defs Let_def quiet_intros)

lemma quiet_open_session: "quiet (open_session nv f line column endLine endColumn)"
  unfolding open_session_def call_defs
  by (intro quiet_intros quiet_jump_and_select)

lemma quiet_exec_session: "quiet (exec_session nv command isKeySequence)"
  unfolding exec_session_def run_command_def command_output_def call_defs Let_def
  by (auto intro!: quiet_intros simp: split_def)

lemma find_absent: "\<forall>i\<in>set xs. pid i \<noteq> p \<Longrightarrow> find (\<lambda>s. pid s = p) xs = None"
  by (induction xs) auto

lemma sockets_dir_one:
  "findNeovimSockets (sockets_dir [''nvim-1257.sock'']) =
     [\<lparr>socket = ''/tmp/nvim-1257.sock'', pid = 1257\<rparr>]"
  by (simp add: findNeovimSockets_def sockets_dir_def startsWith_def endsWith_def tmpDir_def
      join_def match_here_def is_digit_def parseInt_def digit_value_def)

lemma instance_1257:
  "getNeovimInstance (sockets_dir [''nvim-1257.sock'']) 1257 =
     Some \<lparr>socket = ''/tmp/nvim-1257.sock'', pid = 1257\<rparr>"
  by (simp add: getNeovimInstance_def sockets_dir_one)

lemma string_of_int_9999999: "string_of_int 9999999 = ''9999999''"
  by (simp add: string_of_int_def string_of_nat.simps)



section \<open>Results that every session returns\<close>

lemma snapshot_session_Inr:
  "snapshot_session nv inst s = (Inr r, s') \<Longrightarrow> error r = None"
  by (auto simp: snapshot_session_def bind_Inr)

lemma open_session_Inr:
  "open_session nv f ln c el ec s = (Inr r, s') \<Longrightarrow> of_success r \<and> of_error r = None"
  by (auto simp: open_session_def bind_Inr)

lemma jump_and_select_message:
  "jump_and_select nv f ln c el ec s = (Inr m, s') \<Longrightarrow> m \<noteq> []"
  by (auto simp: jump_and_select_def bind_Inr Let_def split: option.splits)

lemma open_session_message:
  "open_session nv f ln c el ec s = (Inr r, s') \<Longrightarrow> of_message r \<noteq> []"
  by (auto simp: open_session_def bind_Inr dest: jump_and_select_message)

lemma run_command_message:
  "run_command nv c k s = (Inr (out, m), s') \<Longrightarrow> m \<noteq> []"
  by (auto simp: run_command_def bind_Inr split: if_splits)

lemma exec_session_Inr:
  "exec_session nv c k s = (Inr r, s') \<Longrightarrow>
     ex_success r \<and> ex_error r = None \<and> ex_message r \<noteq> []"
  by (auto simp: exec_session_def bind_Inr dest: run_command_message)

text \<open>
  What an operation returns is settled by \<^verbatim>\<open>attach\<close> and by the session: the
  \<^verbatim>\<open>close\<close> of the \<^verbatim>\<open>catch\<close> block and the callbacks in the background add
  to the log only.
\<close>

lemma run_session_result:
  "fst (run_catching nv (bind (attach nv s) (\<lambda>_. try_catch body (close_and_rethrow nv))) h) =
     (case on_attach nv [] s of
        Inl e \<Rightarrow> h e
      | Inr u \<Rightarrow>
          (case fst (body ([Dispatch (Attach s), Resolve (Attach s)], [])) of
             Inr x \<Rightarrow> x
           | Inl e \<Rightarrow> h e))"
  by (simp add: run_session split: sum.splits prod.splits)

section \<open>An instance that is not there\<close>

text \<open>
  C7. When no instance of the current discovery set has the requested pid, the snapshot
  is the placeholder that echoes the pid with an empty socket path and carries the
  not-found error, navigate and execute return \<open>success = False\<close> with a message and an
  error that contain the pid, and the log of remote calls is empty: no connection is
  attempted.
\<close>

theorem not_found_without_connecting:
  assumes "\<forall>i\<in>set (findNeovimSockets fs). pid i \<noteq> p"
  shows "getNeovimInstanceDetails fs nv p =
           (\<lparr>instance_of = \<lparr>socket = [], pid = p\<rparr>, workingDirectory = None,
             currentFile = None, buffers = None, cursorPosition = None,
             error = Some (''Neovim instance with PID '' @ string_of_int p @ '' not found'')\<rparr>,
            []) \<and>
         openFileInNeovim fs nv p filePath line column endLine endColumn =
           (\<lparr>of_success = False,
             of_message = ''Neovim instance with PID '' @ string_of_int p @ '' not found'',
             of_file = None, of_line = None, of_column = None,
             of_error = Some (''PID '' @ string_of_int p @ '' not found'')\<rparr>,
            []) \<and>
         executeInNeovim fs nv p command isKeySequence =
           (\<lparr>ex_success = False,
             ex_message = ''Neovim instance with PID '' @ string_of_int p @ '' not found'',
             ex_command = Some command, ex_output = None,
             ex_error = Some (''PID '' @ string_of_int p @ '' not found'')\<rparr>,
            [])"
proof -
  from assms have "getNeovimInstance fs p = None"
    by (simp add: getNeovimInstance_def find_absent)
  then show ?thesis
    by (simp add: getNeovimInstanceDetails_def openFileInNeovim_def executeInNeovim_def)
qed

theorem not_found_without_connecting_witness:
  "getNeovimInstanceDetails (sockets_dir [''nvim-1257.sock'']) steady 9999999 =
     (\<lparr>instance_of = \<lparr>socket = [], pid = 9999999\<rparr>, workingDirectory = None,
       currentFile = None, buffers = None, cursorPosition = None,
       error = Some ''Neovim instance with PID 9999999 not found''\<rparr>, []) \<and>
   snd (openFileInNeovim (sockets_dir [''nvim-1257.sock'']) steady 9999999 ''f.txt''
          (Some 10) None None None) = [] \<and>
   ex_error (fst (executeInNeovim (sockets_dir [''nvim-1257.sock'']) steady 9999999 '':w'' False)) =
     Some ''PID 9999999 not found''"
  using not_found_without_connecting [of "sockets_dir [''nvim-1257.sock'']" 9999999 steady
      "''f.txt''" "Some 10" None None None "'':w''" False]
  by (simp add: sockets_dir_one string_of_int_9999999)

section \<open>The shape of an operation result\<close>

text \<open>
  C8. Every result of \<^verbatim>\<open>openFileInNeovim\<close> and of \<^verbatim>\<open>executeInNeovim\<close> has
  its \<open>error\<close> field set exactly when \<open>success\<close> is false, and its \<open>message\<close>, a
  mandatory field of the result type, is never the empty string.
\<close>

theorem error_iff_not_success:
  "((of_error (fst (openFileInNeovim fs nv p filePath line column endLine endColumn)) \<noteq> None) =
      (\<not> of_success (fst (openFileInNeovim fs nv p filePath line column endLine endColumn)))) \<and>
   of_message (fst (openFileInNeovim fs nv p filePath line column endLine endColumn)) \<noteq> [] \<and>
   ((ex_error (fst (executeInNeovim fs nv p command isKeySequence)) \<noteq> None) =
      (\<not> ex_success (fst (executeInNeovim fs nv p command isKeySequence)))) \<and>
   ex_message (fst (executeInNeovim fs nv p command isKeySequence)) \<noteq> []"
proof -
  let ?o = "fst (openFileInNeovim fs nv p filePath line column endLine endColumn)"
  let ?x = "fst (executeInNeovim fs nv p command isKeySequence)"
  have o: "((of_error ?o \<noteq> None) = (\<not> of_success ?o)) \<and> of_message ?o \<noteq> []"
  proof (cases "getNeovimInstance fs p")
    case None
    then show ?thesis by (simp add: openFileInNeovim_def)
  next
    case (Some inst)
    let ?s = "([Dispatch (Attach (socket inst)), Resolve (Attach (socket inst))], [])"
    obtain out s' where body: "open_session nv filePath line column endLine endColumn ?s = (out, s')"
      by (cases "open_session nv filePath line column endLine endColumn ?s")
    show ?thesis
    proof (cases out)
      case (Inl e)
      with Some body show ?thesis
        by (simp add: openFileInNeovim_def run_session_result split: sum.splits)
    next
      case (Inr r)
      with body have "of_success r \<and> of_error r = None \<and> of_message r \<noteq> []"
        by (auto dest: open_session_Inr open_session_message)
      with Some body Inr show ?thesis
        by (simp add: openFileInNeovim_def run_session_result split: sum.splits)
    qed
  qed
  have x: "((ex_error ?x \<noteq> None) = (\<not> ex_success ?x)) \<and> ex_message ?x \<noteq> []"
  proof (cases "getNeovimInstance fs p")
    case None
    then show ?thesis by (simp add: executeInNeovim_def)
  next
    case (Some inst)
    let ?s = "([Dispatch (Attach (socket inst)), Resolve (Attach (socket inst))], [])"
    obtain out s' where body: "exec_session nv command isKeySequence ?s = (out, s')"
      by (cases "exec_session nv command isKeySequence ?s")
    show ?thesis
    proof (cases out)
      case (Inl e)
      with Some body show ?thesis
        by (simp add: executeInNeovim_def run_session_result split: sum.splits)
    next
      case (Inr r)
      with body have "ex_success r \<and> ex_error r = None \<and> ex_message r \<noteq> []"
        by (auto dest: exec_session_Inr)
      with Some body Inr show ?thesis
        by (simp add: executeInNeovim_def run_session_result split: sum.splits)
    qed
  qed
  from o x show ?thesis by simp
qed

theorem error_iff_not_success_witness:
  "of_error (fst (openFileInNeovim (sockets_dir [''nvim-1257.sock'']) refusing 1257 ''f.txt''
      (Some 10) None None None)) \<noteq> None \<and>
   \<not> of_success (fst (openFileInNeovim (sockets_dir [''nvim-1257.sock'']) refusing 1257 ''f.txt''
      (Some 10) None None None)) \<and>
   ex_message (fst (executeInNeovim (sockets_dir [''nvim-1257.sock'']) refusing 1257 '':w'' False))
     \<noteq> []"
  using error_iff_not_success [of "sockets_dir [''nvim-1257.sock'']" refusing 1257 "''f.txt''"
      "Some 10" None None None "'':w''" False]
  by (simp add: openFileInNeovim_def instance_1257 run_session_result refusing_def steady_def)


section \<open>The remote calls of the navigator\<close>

lemma dispatched_append [simp]: "dispatched (l @ l') = dispatched l @ dispatched l'"
  by (induction l rule: dispatched.induct) simp_all

lemma dispatched_settle [simp]: "dispatched (settle r out # l) = dispatched l"
  by (simp add: settle_def split: sum.splits)

lemma settle_not_Dispatch [simp]: "settle r out \<noteq> Dispatch r'" "Dispatch r' \<noteq> settle r out"
  by (simp_all add: settle_def split: sum.splits)

lemma Dispatch_dispatched: "(Dispatch r \<in> set l) = (r \<in> set (dispatched l))"
  by (induction l rule: dispatched.induct) auto

lemma settle_Reject [simp]: "(settle r out = Reject r' e) = (r' = r \<and> out = Inl e)"
  by (auto simp: settle_def split: sum.splits)

lemmas run_defs = bind_def try_catch_def await_quiet return_def throw_def call_defs attach_def
  run_catching_def close_and_rethrow_def settle_def

text \<open>
  The positioning part, started with nothing in the background. When it returns, its
  calls are the cursor call and, with an end line, the key \<open>v\<close> and the second cursor
  call, and none of them was rejected; when it throws, its calls are an initial part of
  these and the last of them was rejected.
\<close>

lemma jump_and_select_run:
  assumes "jump_and_select nv f line column endLine endColumn (l, []) = (out, s')"
  shows "\<exists>q. s' = (l @ q, []) \<and>
           prefix (dispatched q)
             (case line of
                None \<Rightarrow> []
              | Some ln \<Rightarrow>
                  Call_cursor ln (or_default column 1) #
                  (case endLine of
                     None \<Rightarrow> []
                   | Some el \<Rightarrow> [Input ''v'', Call_cursor el (or_default endColumn 999)])) \<and>
           (case out of
              Inr m \<Rightarrow>
                dispatched q =
                  (case line of
                     None \<Rightarrow> []
                   | Some ln \<Rightarrow>
                       Call_cursor ln (or_default column 1) #
                       (case endLine of
                          None \<Rightarrow> []
                        | Some el \<Rightarrow> [Input ''v'', Call_cursor el (or_default endColumn 999)])) \<and>
                (\<forall>r e. Reject r e \<notin> set q)
            | Inl e \<Rightarrow> (\<exists>r. r \<noteq> Close \<and> Reject r e \<in> set q))"
  using assms
  by (cases line; cases endLine)
     (auto simp: jump_and_select_def bind_eq await_eq call_defs Let_def settle_def
        split: sum.splits)


lemma open_session_run:
  assumes "open_session nv f line column endLine endColumn (l, []) = (out, s')"
  shows "\<exists>q. s' = (l @ q, []) \<and>
           (case out of
              Inr r \<Rightarrow>
                dispatched q =
                  Command (''edit '' @ f) # Command ''checktime'' #
                  (case line of
                     None \<Rightarrow> []
                   | Some ln \<Rightarrow>
                       Call_cursor ln (or_default column 1) #
                       (case endLine of
                          None \<Rightarrow> []
                        | Some el \<Rightarrow> [Input ''v'', Call_cursor el (or_default endColumn 999)])) @
                  [Close] \<and>
                (\<forall>r e. Reject r e \<notin> set q)
            | Inl e \<Rightarrow>
                dispatched q =
                  Command (''edit '' @ f) # Command ''checktime'' #
                  (case line of
                     None \<Rightarrow> []
                   | Some ln \<Rightarrow>
                       Call_cursor ln (or_default column 1) #
                       (case endLine of
                          None \<Rightarrow> []
                        | Some el \<Rightarrow> [Input ''v'', Call_cursor el (or_default endColumn 999)])) @
                  [Close] \<or>
                prefix (dispatched q)
                  (Command (''edit '' @ f) # Command ''checktime'' #
                   (case line of
                      None \<Rightarrow> []
                    | Some ln \<Rightarrow>
                        Call_cursor ln (or_default column 1) #
                        (case endLine of
                           None \<Rightarrow> []
                         | Some el \<Rightarrow>
                             [Input ''v'', Call_cursor el (or_default endColumn 999)]))) \<and>
                (\<exists>r. r \<noteq> Close \<and> Reject r e \<in> set q))"
proof -
  let ?J = "case line of
              None \<Rightarrow> []
            | Some ln \<Rightarrow>
                Call_cursor ln (or_default column 1) #
                (case endLine of
                   None \<Rightarrow> []
                 | Some el \<Rightarrow> [Input ''v'', Call_cursor el (or_default endColumn 999)])"
  let ?e = "Command (''edit '' @ f)" and ?c = "Command ''checktime''"
  let ?l1 = "l @ [Dispatch ?e, settle ?e (on_command nv l (''edit '' @ f))]"
  let ?l2 = "?l1 @ [Dispatch ?c, settle ?c (on_command nv ?l1 ''checktime'')]"
  show ?thesis
  proof (cases "on_command nv l (''edit '' @ f)")
    case (Inl e)
    with assms show ?thesis
      by (auto simp: open_session_def bind_eq await_eq call_defs settle_def)
  next
    case edit: (Inr u)
    show ?thesis
    proof (cases "on_command nv ?l1 ''checktime''")
      case (Inl e)
      with assms edit show ?thesis
        by (auto simp: open_session_def bind_eq await_eq call_defs settle_def)
    next
      case check: (Inr u')
      obtain jout s2 where jump:
        "jump_and_select nv f line column endLine endColumn (?l2, []) = (jout, s2)"
        by (cases "jump_and_select nv f line column endLine endColumn (?l2, [])")
      from jump_and_select_run [OF jump] obtain q where q: "s2 = (?l2 @ q, [])"
        "prefix (dispatched q) ?J"
        "case jout of
           Inr m \<Rightarrow> dispatched q = ?J \<and> (\<forall>r e. Reject r e \<notin> set q)
         | Inl e \<Rightarrow> (\<exists>r. r \<noteq> Close \<and> Reject r e \<in> set q)"
        by blast
      show ?thesis
      proof (cases jout)
        case (Inl e)
        with assms edit check jump q show ?thesis
          by (auto simp: open_session_def bind_eq await_eq call_defs settle_def)
      next
        case (Inr m)
        with assms edit check jump q show ?thesis
          by (cases "on_close nv (?l2 @ q)")
             (auto simp: open_session_def bind_eq await_eq call_defs settle_def)
      qed
    qed
  qed
qed


lemma filter_prefix_id:
  "prefix d P \<Longrightarrow> Close \<notin> set P \<Longrightarrow> filter (\<lambda>r. r \<noteq> Close) d = d"
  by (auto simp: filter_id_conv dest: set_mono_prefix)

text \<open>
  The runs of the navigator for an instance that is found, by their remote calls:
  \<^verbatim>\<open>attach\<close> is rejected; or the calls \<open>P\<close> of the session are all made and
  \<^verbatim>\<open>close\<close> resolves (the only run with \<open>success\<close>); or they are all made and
  \<^verbatim>\<open>close\<close> is rejected and called again; or one of them is rejected, which ends
  the session, and \<^verbatim>\<open>close\<close> is called.
\<close>

lemma open_runs:
  assumes "getNeovimInstance fs p = Some inst"
  shows
    "(\<not> of_success (fst (openFileInNeovim fs nv p f line column endLine endColumn)) \<and>
      dispatched (snd (openFileInNeovim fs nv p f line column endLine endColumn)) =
        [Attach (socket inst)] \<and>
      (\<exists>e. Reject (Attach (socket inst)) e
             \<in> set (snd (openFileInNeovim fs nv p f line column endLine endColumn)))) \<or>
     (of_success (fst (openFileInNeovim fs nv p f line column endLine endColumn)) \<and>
      dispatched (snd (openFileInNeovim fs nv p f line column endLine endColumn)) =
        Attach (socket inst) # Command (''edit '' @ f) # Command ''checktime'' #
        (case line of
           None \<Rightarrow> []
         | Some ln \<Rightarrow>
             Call_cursor ln (or_default column 1) #
             (case endLine of
                None \<Rightarrow> []
              | Some el \<Rightarrow> [Input ''v'', Call_cursor el (or_default endColumn 999)])) @
        [Close]) \<or>
     (\<not> of_success (fst (openFileInNeovim fs nv p f line column endLine endColumn)) \<and>
      dispatched (snd (openFileInNeovim fs nv p f line column endLine endColumn)) =
        Attach (socket inst) # Command (''edit '' @ f) # Command ''checktime'' #
        (case line of
           None \<Rightarrow> []
         | Some ln \<Rightarrow>
             Call_cursor ln (or_default column 1) #
             (case endLine of
                None \<Rightarrow> []
              | Some el \<Rightarrow> [Input ''v'', Call_cursor el (or_default endColumn 999)])) @
        [Close, Close]) \<or>
     (\<not> of_success (fst (openFileInNeovim fs nv p f line column endLine endColumn)) \<and>
      (\<exists>d r e.
         dispatched (snd (openFileInNeovim fs nv p f line column endLine endColumn)) =
           Attach (socket inst) # d @ [Close] \<and>
         prefix d
           (Command (''edit '' @ f) # Command ''checktime'' #
            (case line of
               None \<Rightarrow> []
             | Some ln \<Rightarrow>
                 Call_cursor ln (or_default column 1) #
                 (case endLine of
                    None \<Rightarrow> []
                  | Some el \<Rightarrow> [Input ''v'', Call_cursor el (or_default endColumn 999)]))) \<and>
         r \<noteq> Close \<and>
         Reject r e \<in> set (snd (openFileInNeovim fs nv p f line column endLine endColumn))))"
proof (cases "on_attach nv [] (socket inst)")
  case (Inl e)
  with assms show ?thesis
    by (simp add: openFileInNeovim_def run_session)
next
  case (Inr u)
  let ?s = "([Dispatch (Attach (socket inst)), Resolve (Attach (socket inst))], [])"
  obtain out s' where body: "open_session nv f line column endLine endColumn ?s = (out, s')"
    by (cases "open_session nv f line column endLine endColumn ?s")
  from open_session_run [OF body] obtain q where q:
    "s' = ([Dispatch (Attach (socket inst)), Resolve (Attach (socket inst))] @ q, [])"
    by blast
  show ?thesis
  proof (cases out)
    case out: (Inr r)
    with body have "of_success r" by (auto dest: open_session_Inr)
    with assms Inr body out q open_session_run [OF body] show ?thesis
      by (simp add: openFileInNeovim_def run_session)
  next
    case out: (Inl e)
    with assms Inr body q open_session_run [OF body] show ?thesis
      by (auto simp: openFileInNeovim_def run_session nvim_close_quiet)
  qed
qed


lemma string_of_int_small:
  "string_of_int 1 = ''1''" "string_of_int 10 = ''10''" "string_of_int 20 = ''20''"
  "string_of_int 999 = ''999''" "string_of_int 5 = ''5''" "string_of_int 80 = ''80''"
  by (simp_all add: string_of_int_def string_of_nat.simps)

text \<open>
  C5. For an instance that is found and every choice of the optional arguments, let
  \<open>P\<close> be: \<^verbatim>\<open>attach\<close>, \<^verbatim>\<open>edit\<close> of the file, \<^verbatim>\<open>checktime\<close>; with a line, the
  cursor call at that line and at the column, which is 1 when the column is omitted (or
  0); with a line and an end line, the key \<open>v\<close> and the cursor call at the end line
  and at the end column, which is 999 when the end column is omitted (or 0). Then:
  apart from \<^verbatim>\<open>close\<close>, the remote calls of every run are an initial part of \<open>P\<close>, in
  that order; a run with \<open>success\<close> makes exactly the calls of \<open>P\<close> and then
  \<^verbatim>\<open>close\<close>; a run in which no call other than \<^verbatim>\<open>close\<close> is rejected makes all
  the calls of \<open>P\<close>; and the key \<open>v\<close>, the start of a selection, is sent only when both
  a line and an end line are given.
\<close>

theorem navigate_remote_calls:
  assumes "getNeovimInstance fs p = Some inst"
  shows
    "prefix
       (filter (\<lambda>r. r \<noteq> Close)
          (dispatched (snd (openFileInNeovim fs nv p f line column endLine endColumn))))
       (Attach (socket inst) # Command (''edit '' @ f) # Command ''checktime'' #
        (case line of
           None \<Rightarrow> []
         | Some ln \<Rightarrow>
             Call_cursor ln (case column of None \<Rightarrow> 1 | Some c \<Rightarrow> if c = 0 then 1 else c) #
             (case endLine of
                None \<Rightarrow> []
              | Some el \<Rightarrow>
                  [Input ''v'',
                   Call_cursor el
                     (case endColumn of None \<Rightarrow> 999 | Some c \<Rightarrow> if c = 0 then 999 else c)]))) \<and>
     (of_success (fst (openFileInNeovim fs nv p f line column endLine endColumn)) \<longrightarrow>
        dispatched (snd (openFileInNeovim fs nv p f line column endLine endColumn)) =
          Attach (socket inst) # Command (''edit '' @ f) # Command ''checktime'' #
          (case line of
             None \<Rightarrow> []
           | Some ln \<Rightarrow>
               Call_cursor ln (case column of None \<Rightarrow> 1 | Some c \<Rightarrow> if c = 0 then 1 else c) #
               (case endLine of
                  None \<Rightarrow> []
                | Some el \<Rightarrow>
                    [Input ''v'',
                     Call_cursor el
                       (case endColumn of None \<Rightarrow> 999 | Some c \<Rightarrow> if c = 0 then 999 else c)])) @
          [Close]) \<and>
     ((\<forall>r e. Reject r e \<in> set (snd (openFileInNeovim fs nv p f line column endLine endColumn))
          \<longrightarrow> r = Close) \<longrightarrow>
        filter (\<lambda>r. r \<noteq> Close)
          (dispatched (snd (openFileInNeovim fs nv p f line column endLine endColumn))) =
          Attach (socket inst) # Command (''edit '' @ f) # Command ''checktime'' #
          (case line of
             None \<Rightarrow> []
           | Some ln \<Rightarrow>
               Call_cursor ln (case column of None \<Rightarrow> 1 | Some c \<Rightarrow> if c = 0 then 1 else c) #
               (case endLine of
                  None \<Rightarrow> []
                | Some el \<Rightarrow>
                    [Input ''v'',
                     Call_cursor el
                       (case endColumn of None \<Rightarrow> 999 | Some c \<Rightarrow> if c = 0 then 999 else c)]))) \<and>
     (Dispatch (Input ''v'')
        \<in> set (snd (openFileInNeovim fs nv p f line column endLine endColumn)) \<longrightarrow>
      line \<noteq> None \<and> endLine \<noteq> None)"
proof -
  let ?log = "snd (openFileInNeovim fs nv p f line column endLine endColumn)"
  let ?res = "fst (openFileInNeovim fs nv p f line column endLine endColumn)"
  let ?col = "case column of None \<Rightarrow> 1 | Some c \<Rightarrow> if c = 0 then 1 else c"
  let ?endCol = "case endColumn of None \<Rightarrow> 999 | Some c \<Rightarrow> if c = 0 then 999 else c"
  let ?J = "case line of
              None \<Rightarrow> []
            | Some ln \<Rightarrow>
                Call_cursor ln ?col #
                (case endLine of None \<Rightarrow> [] | Some el \<Rightarrow> [Input ''v'', Call_cursor el ?endCol])"
  let ?S = "Command (''edit '' @ f) # Command ''checktime'' # ?J"
  let ?P = "Attach (socket inst) # ?S"
  have col: "or_default column 1 = ?col" "or_default endColumn 999 = ?endCol"
    by (simp_all add: or_default_def split: option.splits)
  have no_close: "Close \<notin> set ?S"
    by (cases line; cases endLine) simp_all
  have keep: "filter (\<lambda>r. r \<noteq> Close) ?S = ?S"
    by (cases line; cases endLine) simp_all
  have input: "Input ''v'' \<in> set ?P \<Longrightarrow> line \<noteq> None \<and> endLine \<noteq> None"
    by (cases line; cases endLine) simp_all
  from open_runs [OF assms, of nv f line column endLine endColumn]
  consider
    (refused) e where "\<not> of_success ?res" "dispatched ?log = [Attach (socket inst)]"
      "Reject (Attach (socket inst)) e \<in> set ?log"
  | (closed) "of_success ?res"
      "dispatched ?log =
         Attach (socket inst) # Command (''edit '' @ f) # Command ''checktime'' # ?J @ [Close]"
  | (reclosed) "\<not> of_success ?res"
      "dispatched ?log =
         Attach (socket inst) # Command (''edit '' @ f) # Command ''checktime'' # ?J @
         [Close, Close]"
  | (failed) d r e where "\<not> of_success ?res"
      "dispatched ?log = Attach (socket inst) # d @ [Close]" "prefix d ?S" "r \<noteq> Close"
      "Reject r e \<in> set ?log"
    unfolding col by (elim disjE conjE exE) (blast+)
  then have calls:
    "prefix (filter (\<lambda>r. r \<noteq> Close) (dispatched ?log)) ?P \<and>
     (of_success ?res \<longrightarrow>
        dispatched ?log =
          Attach (socket inst) # Command (''edit '' @ f) # Command ''checktime'' # ?J @ [Close]) \<and>
     ((\<forall>r e. Reject r e \<in> set ?log \<longrightarrow> r = Close) \<longrightarrow>
        filter (\<lambda>r. r \<noteq> Close) (dispatched ?log) = ?P)"
  proof cases
    case refused
    then show ?thesis by auto
  next
    case closed
    from closed(1,2) keep show ?thesis by simp
  next
    case reclosed
    from reclosed(1,2) keep show ?thesis by simp
  next
    case failed
    from failed(3) no_close have "filter (\<lambda>r. r \<noteq> Close) d = d"
      by (rule filter_prefix_id)
    with failed show ?thesis by auto
  qed
  have "line \<noteq> None \<and> endLine \<noteq> None" if "Dispatch (Input ''v'') \<in> set ?log"
  proof -
    from that have "Input ''v'' \<in> set (filter (\<lambda>r. r \<noteq> Close) (dispatched ?log))"
      by (simp add: Dispatch_dispatched)
    with calls have "Input ''v'' \<in> set ?P"
      using set_mono_prefix by blast
    then show ?thesis by (rule input)
  qed
  with calls show ?thesis by blast
qed


lemma open_steady_select:
  "openFileInNeovim (sockets_dir [''nvim-1257.sock'']) steady 1257 ''f.txt'' (Some 10) None (Some 20) None =
    (\<lparr>of_success = True,
      of_message = ''Opened f.txt at line 10, column 1 (selected to line 20, column 999)'',
      of_file = Some ''f.txt'', of_line = Some 10, of_column = None, of_error = None\<rparr>,
     [Dispatch (Attach ''/tmp/nvim-1257.sock''), Resolve (Attach ''/tmp/nvim-1257.sock''),
      Dispatch (Command ''edit f.txt''), Resolve (Command ''edit f.txt''),
      Dispatch (Command ''checktime''), Resolve (Command ''checktime''),
      Dispatch (Call_cursor 10 1), Resolve (Call_cursor 10 1),
      Dispatch (Input ''v''), Resolve (Input ''v''),
      Dispatch (Call_cursor 20 999), Resolve (Call_cursor 20 999),
      Dispatch Close, Resolve Close])"
  by (simp add: openFileInNeovim_def instance_1257 open_session_def
      jump_and_select_def run_defs or_default_def steady_def string_of_int_small)

lemma open_steady_line:
  "openFileInNeovim (sockets_dir [''nvim-1257.sock'']) steady 1257 ''f.txt'' (Some 10) None None None =
    (\<lparr>of_success = True,
      of_message = ''Opened f.txt at line 10, column 1'',
      of_file = Some ''f.txt'', of_line = Some 10, of_column = None, of_error = None\<rparr>,
     [Dispatch (Attach ''/tmp/nvim-1257.sock''), Resolve (Attach ''/tmp/nvim-1257.sock''),
      Dispatch (Command ''edit f.txt''), Resolve (Command ''edit f.txt''),
      Dispatch (Command ''checktime''), Resolve (Command ''checktime''),
      Dispatch (Call_cursor 10 1), Resolve (Call_cursor 10 1),
      Dispatch Close, Resolve Close])"
  by (simp add: openFileInNeovim_def instance_1257 open_session_def
      jump_and_select_def run_defs or_default_def steady_def string_of_int_small)

lemma open_steady_columns:
  "openFileInNeovim (sockets_dir [''nvim-1257.sock'']) steady 1257 ''f.txt''
     (Some 10) (Some 5) (Some 20) (Some 80) =
    (\<lparr>of_success = True,
      of_message = ''Opened f.txt at line 10, column 5 (selected to line 20, column 80)'',
      of_file = Some ''f.txt'', of_line = Some 10, of_column = Some 5, of_error = None\<rparr>,
     [Dispatch (Attach ''/tmp/nvim-1257.sock''), Resolve (Attach ''/tmp/nvim-1257.sock''),
      Dispatch (Command ''edit f.txt''), Resolve (Command ''edit f.txt''),
      Dispatch (Command ''checktime''), Resolve (Command ''checktime''),
      Dispatch (Call_cursor 10 5), Resolve (Call_cursor 10 5),
      Dispatch (Input ''v''), Resolve (Input ''v''),
      Dispatch (Call_cursor 20 80), Resolve (Call_cursor 20 80),
      Dispatch Close, Resolve Close])"
  by (simp add: openFileInNeovim_def instance_1257 open_session_def
      jump_and_select_def run_defs or_default_def steady_def string_of_int_small)

theorem navigate_remote_calls_witness:
  "of_success (fst (openFileInNeovim (sockets_dir [''nvim-1257.sock'']) steady 1257
       ''f.txt'' (Some 10) None None None)) \<and>
   dispatched (snd (openFileInNeovim (sockets_dir [''nvim-1257.sock'']) steady 1257
       ''f.txt'' (Some 10) None None None)) =
     [Attach ''/tmp/nvim-1257.sock'', Command ''edit f.txt'', Command ''checktime'',
      Call_cursor 10 1, Close] \<and>
   of_success (fst (openFileInNeovim (sockets_dir [''nvim-1257.sock'']) steady 1257
       ''f.txt'' (Some 10) None (Some 20) None)) \<and>
   Dispatch (Input ''v'') \<in> set (snd (openFileInNeovim (sockets_dir [''nvim-1257.sock'']) steady 1257
       ''f.txt'' (Some 10) None (Some 20) None)) \<and>
   dispatched (snd (openFileInNeovim (sockets_dir [''nvim-1257.sock'']) steady 1257
       ''f.txt'' (Some 10) None (Some 20) None)) =
     [Attach ''/tmp/nvim-1257.sock'', Command ''edit f.txt'', Command ''checktime'',
      Call_cursor 10 1, Input ''v'', Call_cursor 20 999, Close] \<and>
   of_success (fst (openFileInNeovim (sockets_dir [''nvim-1257.sock'']) steady 1257
       ''f.txt'' (Some 10) (Some 5) (Some 20) (Some 80))) \<and>
   dispatched (snd (openFileInNeovim (sockets_dir [''nvim-1257.sock'']) steady 1257
       ''f.txt'' (Some 10) (Some 5) (Some 20) (Some 80))) =
     [Attach ''/tmp/nvim-1257.sock'', Command ''edit f.txt'', Command ''checktime'',
      Call_cursor 10 5, Input ''v'', Call_cursor 20 80, Close]"
  using navigate_remote_calls [OF instance_1257, where nv = steady and f = "''f.txt''"
      and line = "Some 10" and column = None and endLine = None and endColumn = None]
    navigate_remote_calls [OF instance_1257, where nv = steady and f = "''f.txt''"
      and line = "Some 10" and column = None and endLine = "Some 20" and endColumn = None]
    navigate_remote_calls [OF instance_1257, where nv = steady and f = "''f.txt''"
      and line = "Some 10" and column = "Some 5" and endLine = "Some 20" and endColumn = "Some 80"]
  by (simp add: open_steady_line open_steady_select open_steady_columns)

section \<open>Falsy columns\<close>

lemma jump_zero_column:
  "jump_and_select nv f line (Some 0) endLine endColumn =
   jump_and_select nv f line None endLine endColumn"
  by (cases line; cases endLine) (simp_all add: jump_and_select_def or_default_def)

lemma jump_zero_endColumn:
  "jump_and_select nv f line column endLine (Some 0) =
   jump_and_select nv f line column endLine None"
  by (cases line; cases endLine) (simp_all add: jump_and_select_def or_default_def)

lemma open_session_zero_column:
  "open_session nv f line (Some 0) endLine endColumn s =
     (case open_session nv f line None endLine endColumn s of
        (Inl e, s') \<Rightarrow> (Inl e, s')
      | (Inr r, s') \<Rightarrow> (Inr (r\<lparr>of_column := Some 0\<rparr>), s'))"
  by (simp add: open_session_def jump_zero_column bind_def return_def
      split: prod.splits sum.splits)

lemma open_zero_column:
  "openFileInNeovim fs nv p f line (Some 0) endLine endColumn =
     (case openFileInNeovim fs nv p f line None endLine endColumn of
        (r, l) \<Rightarrow> (if of_success r then r\<lparr>of_column := Some 0\<rparr> else r, l))"
proof (cases "getNeovimInstance fs p")
  case None
  then show ?thesis by (simp add: openFileInNeovim_def)
next
  case (Some inst)
  let ?s = "([Dispatch (Attach (socket inst)), Resolve (Attach (socket inst))], [])"
  obtain out s' where body: "open_session nv f line None endLine endColumn ?s = (out, s')"
    by (cases "open_session nv f line None endLine endColumn ?s")
  show ?thesis
  proof (cases out)
    case (Inl e)
    with Some body show ?thesis
      by (simp add: openFileInNeovim_def run_session open_session_zero_column split: sum.splits)
  next
    case (Inr r)
    with body have "of_success r" by (auto dest: open_session_Inr)
    with Some body Inr show ?thesis
      by (simp add: openFileInNeovim_def run_session open_session_zero_column split: sum.splits)
  qed
qed

lemma open_zero_endColumn:
  "openFileInNeovim fs nv p f line column endLine (Some 0) =
   openFileInNeovim fs nv p f line column endLine None"
proof -
  have "open_session nv f line column endLine (Some 0) =
        open_session nv f line column endLine None"
    by (simp add: open_session_def jump_zero_endColumn)
  then show ?thesis
    by (simp add: openFileInNeovim_def split: option.splits)
qed

lemma open_success_requests:
  assumes "getNeovimInstance fs p = Some inst"
    and "of_success (fst (openFileInNeovim fs nv p f line column endLine endColumn))"
  shows "dispatched (snd (openFileInNeovim fs nv p f line column endLine endColumn)) =
     Attach (socket inst) # Command (''edit '' @ f) # Command ''checktime'' #
       (case line of
          None \<Rightarrow> []
        | Some ln \<Rightarrow>
            Call_cursor ln (or_default column 1) #
            (case endLine of
               None \<Rightarrow> []
             | Some el \<Rightarrow> [Input ''v'', Call_cursor el (or_default endColumn 999)])) @ [Close]"
  using open_runs [OF assms(1), of nv f line column endLine endColumn] assms(2)
  by blast

text \<open>
  C10. A column of 0 is treated as an omitted column: the log of remote calls, and the
  \<open>success\<close>, \<open>message\<close> and \<open>error\<close> of the result are the same (the result
  echoes the column as it was passed). An end column of 0 gives the very same result and
  log as an omitted end column. When a navigation with line, end line and both columns 0
  succeeds, the cursor calls are \<open>(line, 1)\<close> and \<open>(endLine, 999)\<close>.
\<close>

theorem zero_column_is_default:
  "snd (openFileInNeovim fs nv p f line (Some 0) endLine endColumn) =
     snd (openFileInNeovim fs nv p f line None endLine endColumn) \<and>
   of_success (fst (openFileInNeovim fs nv p f line (Some 0) endLine endColumn)) =
     of_success (fst (openFileInNeovim fs nv p f line None endLine endColumn)) \<and>
   of_message (fst (openFileInNeovim fs nv p f line (Some 0) endLine endColumn)) =
     of_message (fst (openFileInNeovim fs nv p f line None endLine endColumn)) \<and>
   of_error (fst (openFileInNeovim fs nv p f line (Some 0) endLine endColumn)) =
     of_error (fst (openFileInNeovim fs nv p f line None endLine endColumn)) \<and>
   openFileInNeovim fs nv p f line column endLine (Some 0) =
     openFileInNeovim fs nv p f line column endLine None \<and>
   (getNeovimInstance fs p = Some inst \<and>
    of_success (fst (openFileInNeovim fs nv p f (Some ln) (Some 0) (Some el) (Some 0))) \<longrightarrow>
      dispatched (snd (openFileInNeovim fs nv p f (Some ln) (Some 0) (Some el) (Some 0))) =
        [Attach (socket inst), Command (''edit '' @ f), Command ''checktime'',
         Call_cursor ln 1, Input ''v'', Call_cursor el 999, Close])"
proof -
  have "getNeovimInstance fs p = Some inst \<Longrightarrow>
    of_success (fst (openFileInNeovim fs nv p f (Some ln) (Some 0) (Some el) (Some 0))) \<Longrightarrow>
      dispatched (snd (openFileInNeovim fs nv p f (Some ln) (Some 0) (Some el) (Some 0))) =
        [Attach (socket inst), Command (''edit '' @ f), Command ''checktime'',
         Call_cursor ln 1, Input ''v'', Call_cursor el 999, Close]"
    using open_success_requests [of fs p inst nv f "Some ln" "Some 0" "Some el" "Some 0"]
    by (simp add: or_default_def)
  then show ?thesis
    by (simp add: open_zero_column open_zero_endColumn split: prod.splits)
qed

lemma open_steady_zero:
  "openFileInNeovim (sockets_dir [''nvim-1257.sock'']) steady 1257 ''f.txt'' (Some 10) (Some 0) (Some 20) (Some 0) =
    (\<lparr>of_success = True,
      of_message = ''Opened f.txt at line 10, column 1 (selected to line 20, column 999)'',
      of_file = Some ''f.txt'', of_line = Some 10, of_column = Some 0, of_error = None\<rparr>,
     [Dispatch (Attach ''/tmp/nvim-1257.sock''), Resolve (Attach ''/tmp/nvim-1257.sock''),
      Dispatch (Command ''edit f.txt''), Resolve (Command ''edit f.txt''),
      Dispatch (Command ''checktime''), Resolve (Command ''checktime''),
      Dispatch (Call_cursor 10 1), Resolve (Call_cursor 10 1),
      Dispatch (Input ''v''), Resolve (Input ''v''),
      Dispatch (Call_cursor 20 999), Resolve (Call_cursor 20 999),
      Dispatch Close, Resolve Close])"
  by (simp add: openFileInNeovim_def instance_1257 open_session_def
      jump_and_select_def run_defs or_default_def steady_def string_of_int_small)

theorem zero_column_is_default_witness:
  "of_success (fst (openFileInNeovim (sockets_dir [''nvim-1257.sock'']) steady 1257 ''f.txt''
      (Some 10) (Some 0) (Some 20) (Some 0))) \<and>
   dispatched (snd (openFileInNeovim (sockets_dir [''nvim-1257.sock'']) steady 1257 ''f.txt''
      (Some 10) (Some 0) (Some 20) (Some 0))) =
     [Attach ''/tmp/nvim-1257.sock'', Command ''edit f.txt'', Command ''checktime'',
      Call_cursor 10 1, Input ''v'', Call_cursor 20 999, Close] \<and>
   snd (openFileInNeovim (sockets_dir [''nvim-1257.sock'']) steady 1257 ''f.txt''
      (Some 10) (Some 0) (Some 20) (Some 0)) =
   snd (openFileInNeovim (sockets_dir [''nvim-1257.sock'']) steady 1257 ''f.txt''
      (Some 10) None (Some 20) (Some 0))"
proof -
  note t = zero_column_is_default [where fs = "sockets_dir [''nvim-1257.sock'']" and nv = steady
      and p = 1257 and f = "''f.txt''" and line = "Some 10" and column = "Some 0"
      and endLine = "Some 20" and endColumn = "Some 0"
      and inst = "\<lparr>socket = ''/tmp/nvim-1257.sock'', pid = 1257\<rparr>" and ln = 10 and el = 20]
  from t have same_log:
    "snd (openFileInNeovim (sockets_dir [''nvim-1257.sock'']) steady 1257 ''f.txt''
       (Some 10) (Some 0) (Some 20) (Some 0)) =
     snd (openFileInNeovim (sockets_dir [''nvim-1257.sock'']) steady 1257 ''f.txt''
       (Some 10) None (Some 20) (Some 0))"
    by (rule conjunct1)
  have run:
    "of_success (fst (openFileInNeovim (sockets_dir [''nvim-1257.sock'']) steady 1257 ''f.txt''
       (Some 10) (Some 0) (Some 20) (Some 0))) \<and>
     dispatched (snd (openFileInNeovim (sockets_dir [''nvim-1257.sock'']) steady 1257 ''f.txt''
       (Some 10) (Some 0) (Some 20) (Some 0))) =
       [Attach ''/tmp/nvim-1257.sock'', Command ''edit f.txt'', Command ''checktime'',
        Call_cursor 10 1, Input ''v'', Call_cursor 20 999, Close]"
    by (simp add: open_steady_zero)
  from same_log run show ?thesis by blast
qed


section \<open>The executor\<close>

lemma command_output_eq:
  "command_output nv c (l, []) =
     (Inr (case on_command nv l c of
             Inl e \<Rightarrow> cmd_error_message e
           | Inr result \<Rightarrow> string_of_result result),
      (l @ [Dispatch (Command c), settle (Command c) (on_command nv l c)], []))"
  by (simp add: command_output_def try_catch_def bind_def nvim_command_def await_quiet return_def
      split: sum.splits)

lemma exec_session_command:
  "exec_session nv command False (l, []) =
     (let c = (if startsWith command '':'' then drop 1 command else command);
          output = (case on_command nv l c of
                      Inl e \<Rightarrow> cmd_error_message e
                    | Inr result \<Rightarrow> string_of_result result);
          l1 = l @ [Dispatch (Command c), settle (Command c) (on_command nv l c)]
      in case on_close nv l1 of
           Inl e \<Rightarrow> (Inl e, (l1 @ [Dispatch Close, Reject Close e], []))
         | Inr u \<Rightarrow>
             (Inr \<lparr>ex_success = True,
                   ex_message = ''Executed command: '' @ command @
                     (if output \<noteq> [] \<and> trim output \<noteq> [] then arrow @ trim output else []),
                   ex_command = Some command,
                   ex_output = (if output \<noteq> [] then Some output else None),
                   ex_error = None\<rparr>,
              (l1 @ [Dispatch Close, Resolve Close], [])))"
  by (simp add: exec_session_def run_command_def command_output_eq bind_def return_def
      nvim_close_def await_quiet settle_def Let_def split: sum.splits)

lemma exec_session_keys:
  "exec_session nv command True (l, []) =
     (case on_input nv l command of
        Inl e \<Rightarrow> (Inl e, (l @ [Dispatch (Input command), Reject (Input command) e], []))
      | Inr u \<Rightarrow>
          (let l1 = l @ [Dispatch (Input command), Resolve (Input command)] in
           case on_close nv l1 of
             Inl e \<Rightarrow> (Inl e, (l1 @ [Dispatch Close, Reject Close e], []))
           | Inr u \<Rightarrow>
               (Inr \<lparr>ex_success = True,
                     ex_message = ''Executed key sequence: '' @ command,
                     ex_command = Some command,
                     ex_output = None,
                     ex_error = None\<rparr>,
                (l1 @ [Dispatch Close, Resolve Close], []))))"
  by (simp add: exec_session_def run_command_def bind_def return_def nvim_input_def
      nvim_close_def await_quiet settle_def Let_def split: sum.splits)

lemmas exec_run = executeInNeovim_def run_session nvim_close_quiet exec_session_command
  exec_session_keys

text \<open>
  The runs of the executor in which no \<^verbatim>\<open>close\<close> is rejected.
  In command mode, when the \<^verbatim>\<open>nvim.command\<close> call is rejected with \<open>e\<close>, the
  command that was sent is the string without its leading colon, and the result is
  \<open>success = True\<close> with the text of \<open>e\<close> as \<open>output\<close> (absent when that text is
  empty) and, trimmed, after the arrow in the message; the text of an \<^verbatim>\<open>Error\<close> is
  its message. In key-sequence mode, when the \<^verbatim>\<open>nvim.input\<close> call resolves, the
  result is \<open>success = True\<close> with the message naming the sequence, and the remote
  calls are \<^verbatim>\<open>attach\<close>, the input of the string as it was given, and
  \<^verbatim>\<open>close\<close>.
\<close>

lemma cmd_error_message_Error: "cmd_error_message (Error m) = m"
  by (simp add: cmd_error_message_def)

lemma rejected_command_is_output:
  assumes "getNeovimInstance fs p = Some inst"
    and "Reject (Command c) (Error m) \<in> set (snd (executeInNeovim fs nv p command False))"
    and "\<forall>e'. Reject Close e' \<notin> set (snd (executeInNeovim fs nv p command False))"
  shows "c = (if startsWith command '':'' then drop 1 command else command) \<and>
         fst (executeInNeovim fs nv p command False) =
           \<lparr>ex_success = True,
            ex_message = ''Executed command: '' @ command @
              (if m \<noteq> [] \<and> trim m \<noteq> [] then arrow @ trim m else []),
            ex_command = Some command,
            ex_output = (if m \<noteq> [] then Some m else None),
            ex_error = None\<rparr>"
proof -
  let ?l = "[Dispatch (Attach (socket inst)), Resolve (Attach (socket inst))]"
  let ?c = "if startsWith command '':'' then drop 1 command else command"
  from assms have att: "on_attach nv [] (socket inst) = Inr ()"
    by (cases "on_attach nv [] (socket inst)") (auto simp: exec_run)
  from assms att have cmd: "c = ?c \<and> on_command nv ?l ?c = Inl (Error m)"
    by (cases "on_command nv ?l ?c";
        cases "on_close nv (?l @ [Dispatch (Command ?c), settle (Command ?c) (on_command nv ?l ?c)])")
       (auto simp: exec_run Let_def settle_def split: sum.splits if_splits)
  with assms att show ?thesis
    by (cases "on_close nv (?l @ [Dispatch (Command ?c), Reject (Command ?c) (Error m)])")
       (auto simp: exec_run Let_def settle_def cmd_error_message_Error
          split: sum.splits if_splits)
qed

lemma resolved_input_is_success:
  assumes "getNeovimInstance fs p = Some inst"
    and "Resolve (Input command) \<in> set (snd (executeInNeovim fs nv p command True))"
    and "\<forall>e'. Reject Close e' \<notin> set (snd (executeInNeovim fs nv p command True))"
  shows "fst (executeInNeovim fs nv p command True) =
           \<lparr>ex_success = True,
            ex_message = ''Executed key sequence: '' @ command,
            ex_command = Some command, ex_output = None, ex_error = None\<rparr> \<and>
         dispatched (snd (executeInNeovim fs nv p command True)) =
           [Attach (socket inst), Input command, Close]"
proof -
  let ?l = "[Dispatch (Attach (socket inst)), Resolve (Attach (socket inst))]"
  from assms have att: "on_attach nv [] (socket inst) = Inr ()"
    by (cases "on_attach nv [] (socket inst)") (auto simp: exec_run)
  from assms att have inp: "on_input nv ?l command = Inr ()"
    by (cases "on_input nv ?l command")
       (auto simp: exec_run Let_def settle_def split: sum.splits if_splits)
  from assms att inp
  have cl: "on_close nv (?l @ [Dispatch (Input command), Resolve (Input command)]) = Inr ()"
    by (cases "on_close nv (?l @ [Dispatch (Input command), Resolve (Input command)])")
       (auto simp: exec_run Let_def settle_def split: sum.splits if_splits)
  from assms(1) att inp cl show ?thesis
    by (simp add: exec_run)
qed

lemma trim_rejection:
  "trim ''E492: Not an editor command: nosuchcommand'' =
     ''E492: Not an editor command: nosuchcommand''"
  by (simp add: trim_def ws1_def ws2_def ws3_def)

lemma exec_rejecting:
  "executeInNeovim (sockets_dir [''nvim-1257.sock'']) rejecting 1257 '':nosuchcommand'' False =
     (\<lparr>ex_success = True,
       ex_message = ''Executed command: :nosuchcommand'' @ arrow @
         ''E492: Not an editor command: nosuchcommand'',
       ex_command = Some '':nosuchcommand'',
       ex_output = Some ''E492: Not an editor command: nosuchcommand'',
       ex_error = None\<rparr>,
      [Dispatch (Attach ''/tmp/nvim-1257.sock''), Resolve (Attach ''/tmp/nvim-1257.sock''),
       Dispatch (Command ''nosuchcommand''),
       Reject (Command ''nosuchcommand'') (Error ''E492: Not an editor command: nosuchcommand''),
       Dispatch Close, Resolve Close])"
  by (simp add: instance_1257 exec_run
      rejecting_def steady_def startsWith_def settle_def cmd_error_message_def trim_rejection
      Let_def)

lemma exec_keys:
  "executeInNeovim (sockets_dir [''nvim-1257.sock'']) steady 1257 ''ihello<Esc>'' True =
     (\<lparr>ex_success = True,
       ex_message = ''Executed key sequence: ihello<Esc>'',
       ex_command = Some ''ihello<Esc>'', ex_output = None, ex_error = None\<rparr>,
      [Dispatch (Attach ''/tmp/nvim-1257.sock''), Resolve (Attach ''/tmp/nvim-1257.sock''),
       Dispatch (Input ''ihello<Esc>''), Resolve (Input ''ihello<Esc>''),
       Dispatch Close, Resolve Close])"
  by (simp add: instance_1257 exec_run steady_def Let_def)

text \<open>
  C4 says that a command which the remote side rejects still gives \<open>success = True\<close>
  with the rejection text as output, and that a key sequence whose injection completes
  gives \<open>success = True\<close>. The source awaits \<^verbatim>\<open>nvim.close()\<close> inside the same
  \<^verbatim>\<open>try\<close> after the output has been captured: when \<^verbatim>\<open>close\<close> is rejected
  too, the rejection text of the command is lost, \<^verbatim>\<open>close\<close> is called again and
  the operation returns \<open>success = False\<close> with the text of the \<^verbatim>\<open>close\<close> error;
  so does the key sequence that was injected.
\<close>

theorem rejected_close_loses_command_output:
  "executeInNeovim (sockets_dir [''nvim-1257.sock'']) rejecting_unclosed 1257
       '':nosuchcommand'' False =
     (\<lparr>ex_success = False, ex_message = ''Failed to execute command in Neovim'',
       ex_command = Some '':nosuchcommand'', ex_output = None,
       ex_error = Some ''Failed to connect to Neovim instance: closed''\<rparr>,
      [Dispatch (Attach ''/tmp/nvim-1257.sock''), Resolve (Attach ''/tmp/nvim-1257.sock''),
       Dispatch (Command ''nosuchcommand''),
       Reject (Command ''nosuchcommand'') (Error ''E492: Not an editor command: nosuchcommand''),
       Dispatch Close, Reject Close (Error ''closed''),
       Dispatch Close, Reject Close (Error ''closed'')]) \<and>
   executeInNeovim (sockets_dir [''nvim-1257.sock'']) failing_close 1257 ''ihello<Esc>'' True =
     (\<lparr>ex_success = False, ex_message = ''Failed to execute command in Neovim'',
       ex_command = Some ''ihello<Esc>'', ex_output = None,
       ex_error = Some ''Failed to connect to Neovim instance: closed''\<rparr>,
      [Dispatch (Attach ''/tmp/nvim-1257.sock''), Resolve (Attach ''/tmp/nvim-1257.sock''),
       Dispatch (Input ''ihello<Esc>''), Resolve (Input ''ihello<Esc>''),
       Dispatch Close, Reject Close (Error ''closed''),
       Dispatch Close, Reject Close (Error ''closed'')])"
  by (simp add: instance_1257 exec_run rejecting_unclosed_def rejecting_def failing_close_def
      steady_def startsWith_def settle_def error_message_def Let_def)


section \<open>Connect failures and failures while connected\<close>


lemma snapshot_failing_getcwd:
  "getNeovimInstanceDetails (sockets_dir [''nvim-1257.sock'']) failing_getcwd 1257 =
     (\<lparr>instance_of = \<lparr>socket = ''/tmp/nvim-1257.sock'', pid = 1257\<rparr>,
       workingDirectory = None, currentFile = None, buffers = None, cursorPosition = None,
       error = Some ''Failed to connect to Neovim instance: boom''\<rparr>,
      [Dispatch (Attach ''/tmp/nvim-1257.sock''), Resolve (Attach ''/tmp/nvim-1257.sock''),
       Dispatch Call_getcwd, Reject Call_getcwd (Error ''boom''),
       Dispatch Close, Resolve Close])"
  by (simp add: getNeovimInstanceDetails_def instance_1257 snapshot_session_def run_defs
      failing_getcwd_def steady_def error_message_def)









section \<open>Closing the connection\<close>

lemmas promise_defs = promise_all_buffers_def buffer_info_def await_all.simps
  step_callback_def background.simps map_filter_simps Let_def

text \<open>
  When a quiet session throws, the connection is closed once and the outcome of that
  \<^verbatim>\<open>close\<close> does not reach the result.
\<close>

lemma close_once_after_failed_session:
  assumes "on_attach nv [] s = Inr ()"
    and "body ([Dispatch (Attach s), Resolve (Attach s)], []) = (Inl e, (l, []))"
  shows "run_catching nv (bind (attach nv s) (\<lambda>_. try_catch body (close_and_rethrow nv))) h =
           (h e, l @ [Dispatch Close, settle Close (on_close nv l)])"
  using assms by (simp add: run_session nvim_close_quiet)

text \<open>
  C2 says that \<^verbatim>\<open>close\<close> runs exactly once on every path and that its failure
  never changes the outcome of the body. The source closes inside the inner
  \<^verbatim>\<open>try\<close> on the path of a normal return: with a remote side that answers every
  request and rejects \<^verbatim>\<open>close\<close>, each of the three operations has done all its
  work, dispatches \<^verbatim>\<open>close\<close> twice and returns the failure result with the text
  of the \<^verbatim>\<open>close\<close> error.
\<close>

theorem rejected_close_turns_success_into_failure:
  "getNeovimInstanceDetails (sockets_dir [''nvim-1257.sock'']) failing_close 1257 =
     (\<lparr>instance_of = \<lparr>socket = ''/tmp/nvim-1257.sock'', pid = 1257\<rparr>,
       workingDirectory = None, currentFile = None, buffers = None, cursorPosition = None,
       error = Some ''Failed to connect to Neovim instance: closed''\<rparr>,
      [Dispatch (Attach ''/tmp/nvim-1257.sock''), Resolve (Attach ''/tmp/nvim-1257.sock''),
       Dispatch Call_getcwd, Resolve Call_getcwd,
       Dispatch Get_buffer, Resolve Get_buffer,
       Dispatch (Buffer_name 1), Resolve (Buffer_name 1),
       Dispatch Call_getpos, Resolve Call_getpos,
       Dispatch Get_buffers, Resolve Get_buffers,
       Dispatch (Buffer_name 1), Dispatch (Buffer_name 2),
       Resolve (Buffer_name 1), Dispatch (Buffer_loaded 1),
       Resolve (Buffer_name 2), Dispatch (Buffer_loaded 2),
       Resolve (Buffer_loaded 1), Resolve (Buffer_loaded 2),
       Dispatch Close, Reject Close (Error ''closed''),
       Dispatch Close, Reject Close (Error ''closed'')]) \<and>
   openFileInNeovim (sockets_dir [''nvim-1257.sock'']) failing_close 1257 ''f.txt''
       None None None None =
     (\<lparr>of_success = False, of_message = ''Failed to open file in Neovim'',
       of_file = Some ''f.txt'', of_line = None, of_column = None,
       of_error = Some ''Failed to connect to Neovim instance: closed''\<rparr>,
      [Dispatch (Attach ''/tmp/nvim-1257.sock''), Resolve (Attach ''/tmp/nvim-1257.sock''),
       Dispatch (Command ''edit f.txt''), Resolve (Command ''edit f.txt''),
       Dispatch (Command ''checktime''), Resolve (Command ''checktime''),
       Dispatch Close, Reject Close (Error ''closed''),
       Dispatch Close, Reject Close (Error ''closed'')]) \<and>
   executeInNeovim (sockets_dir [''nvim-1257.sock'']) failing_close 1257 '':w'' False =
     (\<lparr>ex_success = False, ex_message = ''Failed to execute command in Neovim'',
       ex_command = Some '':w'', ex_output = None,
       ex_error = Some ''Failed to connect to Neovim instance: closed''\<rparr>,
      [Dispatch (Attach ''/tmp/nvim-1257.sock''), Resolve (Attach ''/tmp/nvim-1257.sock''),
       Dispatch (Command ''w''), Resolve (Command ''w''),
       Dispatch Close, Reject Close (Error ''closed''),
       Dispatch Close, Reject Close (Error ''closed'')])"
proof (intro conjI)
  show "getNeovimInstanceDetails (sockets_dir [''nvim-1257.sock'']) failing_close 1257 =
     (\<lparr>instance_of = \<lparr>socket = ''/tmp/nvim-1257.sock'', pid = 1257\<rparr>,
       workingDirectory = None, currentFile = None, buffers = None, cursorPosition = None,
       error = Some ''Failed to connect to Neovim instance: closed''\<rparr>,
      [Dispatch (Attach ''/tmp/nvim-1257.sock''), Resolve (Attach ''/tmp/nvim-1257.sock''),
       Dispatch Call_getcwd, Resolve Call_getcwd,
       Dispatch Get_buffer, Resolve Get_buffer,
       Dispatch (Buffer_name 1), Resolve (Buffer_name 1),
       Dispatch Call_getpos, Resolve Call_getpos,
       Dispatch Get_buffers, Resolve Get_buffers,
       Dispatch (Buffer_name 1), Dispatch (Buffer_name 2),
       Resolve (Buffer_name 1), Dispatch (Buffer_loaded 1),
       Resolve (Buffer_name 2), Dispatch (Buffer_loaded 2),
       Resolve (Buffer_loaded 1), Resolve (Buffer_loaded 2),
       Dispatch Close, Reject Close (Error ''closed''),
       Dispatch Close, Reject Close (Error ''closed'')])"
    by (simp add: getNeovimInstanceDetails_def instance_1257 snapshot_session_def run_defs
        promise_defs failing_close_def steady_def error_message_def)
  show "openFileInNeovim (sockets_dir [''nvim-1257.sock'']) failing_close 1257 ''f.txt''
       None None None None =
     (\<lparr>of_success = False, of_message = ''Failed to open file in Neovim'',
       of_file = Some ''f.txt'', of_line = None, of_column = None,
       of_error = Some ''Failed to connect to Neovim instance: closed''\<rparr>,
      [Dispatch (Attach ''/tmp/nvim-1257.sock''), Resolve (Attach ''/tmp/nvim-1257.sock''),
       Dispatch (Command ''edit f.txt''), Resolve (Command ''edit f.txt''),
       Dispatch (Command ''checktime''), Resolve (Command ''checktime''),
       Dispatch Close, Reject Close (Error ''closed''),
       Dispatch Close, Reject Close (Error ''closed'')])"
    by (simp add: openFileInNeovim_def instance_1257 open_session_def jump_and_select_def
        run_defs failing_close_def steady_def error_message_def)
  show "executeInNeovim (sockets_dir [''nvim-1257.sock'']) failing_close 1257 '':w'' False =
     (\<lparr>ex_success = False, ex_message = ''Failed to execute command in Neovim'',
       ex_command = Some '':w'', ex_output = None,
       ex_error = Some ''Failed to connect to Neovim instance: closed''\<rparr>,
      [Dispatch (Attach ''/tmp/nvim-1257.sock''), Resolve (Attach ''/tmp/nvim-1257.sock''),
       Dispatch (Command ''w''), Resolve (Command ''w''),
       Dispatch Close, Reject Close (Error ''closed''),
       Dispatch Close, Reject Close (Error ''closed'')])"
    by (simp add: instance_1257 exec_run
        failing_close_def steady_def error_message_def settle_def startsWith_def Let_def
        string_of_result_def)
qed

section \<open>Names that discovery accepts\<close>

lemma findNeovimSockets_missing_dir: "\<not> existsSync fs tmpDir \<Longrightarrow> findNeovimSockets fs = []"
  by (simp add: findNeovimSockets_def)

lemma findNeovimSockets_unreadable: "readdirSync fs tmpDir = Inl e \<Longrightarrow> findNeovimSockets fs = []"
  by (simp add: findNeovimSockets_def)

lemma scan_files_skips:
  "\<not> (startsWith file ''nvim-'' \<and> endsWith file ''.sock'') \<Longrightarrow>
     scan_files fs (file # files) = scan_files fs files"
  "statSync fs (join tmpDir file) = Inl e \<Longrightarrow> scan_files fs (file # files) = scan_files fs files"
  "statSync fs (join tmpDir file) = Inr stats \<Longrightarrow> \<not> isSocket stats \<Longrightarrow>
     scan_files fs (file # files) = scan_files fs files"
  by (auto simp: Let_def)

text \<open>
  An entry of the documented form \<^verbatim>\<open>nvim-<digits>.sock\<close> that is a socket is
  returned with the number its digits denote.
\<close>

lemma takeWhile_digits:
  "list_all is_digit ds \<Longrightarrow> takeWhile is_digit (ds @ ''.sock'' @ t) = ds"
  by (induction ds) (simp_all add: is_digit_def)

lemma dropWhile_digits:
  "list_all is_digit ds \<Longrightarrow> dropWhile is_digit (ds @ ''.sock'' @ t) = ''.sock'' @ t"
  by (induction ds) (simp_all add: is_digit_def)

lemma pidMatch_documented_name:
  assumes "ds \<noteq> []" and "list_all is_digit ds"
  shows "pidMatch (''nvim-'' @ ds @ ''.sock'') = Some ds"
  using assms takeWhile_digits [of ds "[]"] dropWhile_digits [of ds "[]"]
  by (simp add: match_here_def startsWith_def)

lemma endsWith_append: "endsWith (s @ p) p"
  by (simp add: endsWith_def)

lemma scan_files_documented_name:
  assumes "ds \<noteq> []" and "list_all is_digit ds"
    and "statSync fs (join tmpDir (''nvim-'' @ ds @ ''.sock'')) = Inr stats"
    and "isSocket stats"
  shows "scan_files fs ((''nvim-'' @ ds @ ''.sock'') # files) =
           \<lparr>socket = ''/tmp/nvim-'' @ ds @ ''.sock'', pid = parseInt ds\<rparr> # scan_files fs files"
proof -
  have "endsWith ((''nvim-'' @ ds) @ ''.sock'') ''.sock''" by (rule endsWith_append)
  then have e: "endsWith (''nvim-'' @ ds @ ''.sock'') ''.sock''" by simp
  have s: "startsWith (''nvim-'' @ ds @ ''.sock'') ''nvim-''" by (simp add: startsWith_def)
  from assms s e pidMatch_documented_name [OF assms(1,2)] show ?thesis
    by (simp add: Let_def join_def tmpDir_def del: pidMatch.simps)
qed

lemma spec_socket_name_documented:
  assumes "ds \<noteq> []" and "list_all is_digit ds"
  shows "spec_socket_name (''nvim-'' @ ds @ ''.sock'')"
proof -
  have "endsWith ((''nvim-'' @ ds) @ ''.sock'') ''.sock''" by (rule endsWith_append)
  then have e: "endsWith (''nvim-'' @ ds @ ''.sock'') ''.sock''" by simp
  from assms e show ?thesis
    by (simp add: spec_socket_name_def startsWith_def)
qed

text \<open>
  C6 says that entries which do not match the pattern \<^verbatim>\<open>nvim-<digits>.sock\<close> are
  skipped. The source tests the start and the end of the name and then searches it with
  an expression that is not anchored: the entry \<^verbatim>\<open>nvim-1.sock.sock\<close>, which is not
  of the documented form, is returned as the instance with pid 1.
\<close>

theorem unanchored_name_is_accepted:
  "\<not> spec_socket_name ''nvim-1.sock.sock'' \<and>
   findNeovimSockets (sockets_dir [''nvim-1.sock.sock'']) =
     [\<lparr>socket = ''/tmp/nvim-1.sock.sock'', pid = 1\<rparr>]"
  by (simp add: spec_socket_name_def findNeovimSockets_def sockets_dir_def startsWith_def
      endsWith_def tmpDir_def join_def match_here_def is_digit_def parseInt_def digit_value_def)


section \<open>The turns of the callbacks\<close>


lemma sequential_settle [simp]: "sequential [Dispatch r, settle r out]"
  by (simp add: settle_def split: sum.splits)

lemma loaded_after_name_single:
  "loaded_after_name seen [e] = (\<forall>b. e = Dispatch (Buffer_loaded b) \<longrightarrow> b \<in> set seen)"
  by (cases "(seen, [e])" rule: loaded_after_name.cases) auto

lemma loaded_after_name_snoc:
  "loaded_after_name seen (t @ [e]) =
     (loaded_after_name seen t \<and>
      (\<forall>b. e = Dispatch (Buffer_loaded b) \<longrightarrow> b \<in> set seen \<or> Resolve (Buffer_name b) \<in> set t))"
  by (induction seen t rule: loaded_after_name.induct) (auto simp: loaded_after_name_single)



lemma fetch_reactions_Get_buffers: "list_all fetch_reaction u \<Longrightarrow> Resolve Get_buffers \<notin> set u"
  by (induction u) auto


lemma in_step_others:
  "in_step t bg \<Longrightarrow> set bg' \<subseteq> set bg \<Longrightarrow> \<forall>b. e \<noteq> Dispatch (Buffer_loaded b) \<Longrightarrow>
     in_step (t @ [e]) bg'"
  by (simp add: in_step_def loaded_after_name_snoc) blast

lemma in_step_resolved:
  "in_step t bg \<Longrightarrow> set others \<subseteq> set bg \<Longrightarrow>
     in_step (t @ [Resolve (Buffer_name b)]) (Resumes i b name # others)"
  by (simp add: in_step_def loaded_after_name_snoc) blast

lemma in_step_resumed:
  "in_step t bg \<Longrightarrow> Resumes i b name \<in> set bg \<Longrightarrow> set others \<subseteq> set bg \<Longrightarrow>
     in_step (t @ [Dispatch (Buffer_loaded b)]) (others @ [Awaits_loaded i b name reply])"
  by (simp add: in_step_def loaded_after_name_snoc) blast

text \<open>
  One turn of a callback writes one event, a reaction of a fetch, and keeps the
  callbacks in step with the log; the event is a rejection only when the turn rejects
  the callback.
\<close>

lemma step_callback_turn:
  assumes "k < length bg" and "step_callback nv (l, bg) k = ((l', bg'), sg)"
  shows "\<exists>e. l' = l @ [e] \<and> turns bg [e] bg' \<and>
             ((\<exists>r x. e = Reject r x) \<longrightarrow> (\<exists>x. sg = Rejected x))"
proof -
  define others where "others = take k bg @ drop (Suc k) bg"
  from assms(1) have mem: "bg ! k \<in> set bg" by simp
  have sub: "set others \<subseteq> set bg"
    by (auto simp: others_def dest: in_set_takeD in_set_dropD)
  show ?thesis
  proof (cases "bg ! k")
    case (Awaits_name i b reply)
    show ?thesis
    proof (cases reply)
      case (Inl x)
      with assms(2) Awaits_name
      have "l' = l @ [Reject (Buffer_name b) x]" "bg' = others" "sg = Rejected x"
        by (simp_all add: step_callback_def Let_def others_def)
      with sub show ?thesis
        by (simp add: turns_def in_step_others)
    next
      case (Inr name)
      with assms(2) Awaits_name
      have "l' = l @ [Resolve (Buffer_name b)]" "bg' = Resumes i b name # others"
        by (simp_all add: step_callback_def Let_def others_def)
      with sub show ?thesis
        by (simp add: turns_def in_step_resolved)
    qed
  next
    case (Resumes i b name)
    with assms(2)
    have "l' = l @ [Dispatch (Buffer_loaded b)]"
      "bg' = others @ [Awaits_loaded i b name (on_buffer_loaded nv l b)]"
      by (simp_all add: step_callback_def Let_def others_def)
    moreover from mem Resumes have "Resumes i b name \<in> set bg" by simp
    ultimately show ?thesis
      using sub by (simp add: turns_def in_step_resumed)
  next
    case (Awaits_loaded i b name reply)
    show ?thesis
    proof (cases reply)
      case (Inl x)
      with assms(2) Awaits_loaded
      have "l' = l @ [Reject (Buffer_loaded b) x]" "bg' = others" "sg = Rejected x"
        by (simp_all add: step_callback_def Let_def others_def)
      with sub show ?thesis
        by (simp add: turns_def in_step_others)
    next
      case (Inr loaded)
      with assms(2) Awaits_loaded
      have "l' = l @ [Resolve (Buffer_loaded b)]" "bg' = others"
        by (simp_all add: step_callback_def Let_def others_def)
      with sub show ?thesis
        by (simp add: turns_def in_step_others)
    qed
  qed
qed

lemma turns_Nil: "turns bg [] bg"
  by (simp add: turns_def)

lemma turns_append: "turns bg u bg1 \<Longrightarrow> turns bg1 v bg' \<Longrightarrow> turns bg (u @ v) bg'"
  unfolding turns_def by (metis append.assoc list_all_append)

lemma background_turns:
  "background nv ready s = (l', bg') \<Longrightarrow> \<exists>u. l' = fst s @ u \<and> turns (snd s) u bg'"
proof (induction nv ready s arbitrary: l' bg' rule: background.induct)
  case (1 nv ready l bg)
  define c where "c = next_turn nv l mod Suc (length bg)"
  define k where "k = (if ready then c - 1 else c)"
  have c: "c \<le> length bg" by (simp add: c_def)
  from "1.prems" have run:
    "(if (if ready then c = 0 else c = length bg) then (l, bg)
      else background nv ready (fst (step_callback nv (l, bg) k))) = (l', bg')"
    unfolding c_def k_def background.simps [of nv ready l bg] Let_def .
  show ?case
  proof (cases "if ready then c = 0 else c = length bg")
    case True
    with run have "l' = l" "bg' = bg" by (auto split: if_splits)
    then show ?thesis by (simp add: turns_Nil)
  next
    case False
    with c have k: "k < length bg" by (auto simp: k_def split: if_splits)
    obtain l1 bg1 sg where step: "step_callback nv (l, bg) k = ((l1, bg1), sg)"
      by (metis prod.collapse)
    from step_callback_turn [OF k step] obtain e where e: "l1 = l @ [e]" "turns bg [e] bg1"
      by blast
    from run False step have "background nv ready (l1, bg1) = (l', bg')"
      by (auto split: if_splits)
    with "1.IH" [OF c_def k_def False, of l' bg'] step
    obtain u where u: "l' = l1 @ u" "turns bg1 u bg'"
      by auto
    from e(2) u(2) have "turns bg ([e] @ u) bg'" by (rule turns_append)
    with e(1) u(1) show ?thesis by simp
  qed
qed

lemma await_all_turns:
  "await_all nv cur s results = (out, (l', bg')) \<Longrightarrow>
     \<exists>u. l' = fst s @ u \<and> turns (snd s) u bg' \<and>
         (\<forall>xs. out = Inr xs \<longrightarrow> bg' = [] \<and> (\<forall>r e. Reject r e \<notin> set u))"
proof (induction nv cur s results arbitrary: out l' bg' rule: await_all.induct)
  case (1 nv cur l bg results)
  show ?case
  proof (cases "bg = []")
    case True
    with "1.prems" show ?thesis
      by (simp add: await_all.simps turns_Nil)
  next
    case False
    let ?k = "next_turn nv l mod length bg"
    from False have k: "?k < length bg" by simp
    obtain l1 bg1 sg where step: "step_callback nv (l, bg) ?k = ((l1, bg1), sg)"
      by (metis prod.collapse)
    from step_callback_turn [OF k step] obtain e where e: "l1 = l @ [e]" "turns bg [e] bg1"
      "(\<exists>r x. e = Reject r x) \<longrightarrow> (\<exists>x. sg = Rejected x)"
      by blast
    show ?thesis
    proof (cases sg)
      case (Rejected x)
      with "1.prems" False step have "out = Inl x" "background nv True (l1, bg1) = (l', bg')"
        by (simp_all add: await_all.simps [of nv cur l bg])
      with background_turns [of nv True "(l1, bg1)" l' bg'] obtain u
        where "l' = l1 @ u" "turns bg1 u bg'" by auto
      with e turns_append [of bg "[e]" bg1 u bg']
      have "l' = l @ ([e] @ u)" "turns bg ([e] @ u) bg'"
        by simp_all
      with \<open>out = Inl x\<close> show ?thesis by (metis fst_conv snd_conv sum.distinct(1))
    next
      case (Fulfilled i b name loaded)
      with "1.prems" False step
      have "await_all nv cur (l1, bg1) (results[i := Some (buffer_info cur b name loaded)]) =
          (out, (l', bg'))"
        by (simp add: await_all.simps [of nv cur l bg])
      with "1.IH"(1) [OF False step [symmetric] Fulfilled, of out l' bg']
      obtain u where u: "l' = l1 @ u" "turns bg1 u bg'"
        "\<forall>xs. out = Inr xs \<longrightarrow> bg' = [] \<and> (\<forall>r e. Reject r e \<notin> set u)"
        by auto
      from e(3) Fulfilled have "\<forall>r x. e \<noteq> Reject r x" by auto
      with e u turns_append [of bg "[e]" bg1 u bg']
      have "l' = l @ ([e] @ u)" "turns bg ([e] @ u) bg'"
        "\<forall>xs. out = Inr xs \<longrightarrow> bg' = [] \<and> (\<forall>r x. Reject r x \<notin> set ([e] @ u))"
        by auto
      then show ?thesis by (metis fst_conv snd_conv)
    next
      case Pending
      with "1.prems" False step
      have "await_all nv cur (l1, bg1) results = (out, (l', bg'))"
        by (simp add: await_all.simps [of nv cur l bg])
      with "1.IH"(2) [OF False step [symmetric] Pending, of out l' bg']
      obtain u where u: "l' = l1 @ u" "turns bg1 u bg'"
        "\<forall>xs. out = Inr xs \<longrightarrow> bg' = [] \<and> (\<forall>r e. Reject r e \<notin> set u)"
        by auto
      from e(3) Pending have "\<forall>r x. e \<noteq> Reject r x" by auto
      with e u turns_append [of bg "[e]" bg1 u bg']
      have "l' = l @ ([e] @ u)" "turns bg ([e] @ u) bg'"
        "\<forall>xs. out = Inr xs \<longrightarrow> bg' = [] \<and> (\<forall>r x. Reject r x \<notin> set ([e] @ u))"
        by auto
      then show ?thesis by (metis fst_conv snd_conv)
    qed
  qed
qed

lemma start_callbacks_log:
  "\<exists>cbs. start_callbacks nv i bs (l, bg) =
           (l @ map (\<lambda>b. Dispatch (Buffer_name b)) bs, bg @ cbs) \<and>
         (\<forall>j b name. Resumes j b name \<notin> set cbs)"
proof (induction bs arbitrary: i l bg)
  case Nil
  then show ?case by simp
next
  case (Cons b bs)
  from Cons [of "Suc i" "l @ [Dispatch (Buffer_name b)]"
      "bg @ [Awaits_name i b (on_buffer_name nv l b)]"]
  obtain cbs where "start_callbacks nv (Suc i) bs
      (l @ [Dispatch (Buffer_name b)], bg @ [Awaits_name i b (on_buffer_name nv l b)]) =
      ((l @ [Dispatch (Buffer_name b)]) @ map (\<lambda>b. Dispatch (Buffer_name b)) bs,
       (bg @ [Awaits_name i b (on_buffer_name nv l b)]) @ cbs)"
    "\<forall>j b name. Resumes j b name \<notin> set cbs"
    by blast
  then show ?case
    by (intro exI [of _ "Awaits_name i b (on_buffer_name nv l b) # cbs"]) simp
qed


section \<open>The order of the remote calls of a snapshot\<close>

lemma close_event_settle [simp]: "close_event (settle Close out)"
  by (simp add: settle_def split: sum.splits)















text \<open>
  When the \<^verbatim>\<open>name\<close> request of buffer 1 is rejected, \<^verbatim>\<open>Promise.all\<close> rejects
  and the operation closes the connection, while the callback of buffer 2 goes on: its
  \<^verbatim>\<open>loaded\<close> request is dispatched after \<^verbatim>\<open>close\<close>.
\<close>

lemma snapshot_losing_buffer:
  "getNeovimInstanceDetails (sockets_dir [''nvim-1257.sock'']) losing_buffer 1257 =
     (\<lparr>instance_of = \<lparr>socket = ''/tmp/nvim-1257.sock'', pid = 1257\<rparr>,
       workingDirectory = None, currentFile = None, buffers = None, cursorPosition = None,
       error = Some ''Failed to connect to Neovim instance: gone''\<rparr>,
      [Dispatch (Attach ''/tmp/nvim-1257.sock''), Resolve (Attach ''/tmp/nvim-1257.sock''),
       Dispatch Call_getcwd, Resolve Call_getcwd,
       Dispatch Get_buffer, Resolve Get_buffer,
       Dispatch (Buffer_name 2), Resolve (Buffer_name 2),
       Dispatch Call_getpos, Resolve Call_getpos,
       Dispatch Get_buffers, Resolve Get_buffers,
       Dispatch (Buffer_name 1), Dispatch (Buffer_name 2),
       Reject (Buffer_name 1) (Error ''gone''),
       Dispatch Close,
       Resolve (Buffer_name 2), Dispatch (Buffer_loaded 2), Resolve (Buffer_loaded 2),
       Resolve Close])"
  by (simp add: getNeovimInstanceDetails_def instance_1257 snapshot_session_def run_catching_def
      attach_def close_and_rethrow_def bind_def try_catch_def return_def throw_def call_defs
      await_def settle_def promise_defs losing_buffer_def steady_def error_message_def)





section \<open>Rejected calls of a snapshot\<close>

lemma clean_runD:
  "clean_run m \<Longrightarrow> m (l, []) = (Inr x, s') \<Longrightarrow>
     \<exists>q. s' = (l @ q, []) \<and> (\<forall>r e. Reject r e \<notin> set q)"
  unfolding clean_run_def by blast

lemma clean_run_await: "clean_run (await nv r respond)"
  by (auto simp: clean_run_def await_eq settle_def split: sum.splits)

lemma clean_run_return: "clean_run (return x)"
  by (simp add: clean_run_def)

lemma clean_run_bind:
  assumes "clean_run m" and "\<And>x. clean_run (f x)"
  shows "clean_run (bind m f)"
  unfolding clean_run_def
proof (intro allI impI)
  fix l y s'
  assume "bind m f (l, []) = (Inr y, s')"
  then obtain x s1 where m: "m (l, []) = (Inr x, s1)" and f: "f x s1 = (Inr y, s')"
    by (auto simp: bind_Inr)
  from clean_runD [OF assms(1) m] obtain q where q: "s1 = (l @ q, [])"
    "\<forall>r e. Reject r e \<notin> set q"
    by blast
  from f q(1) have "f x (l @ q, []) = (Inr y, s')" by simp
  from clean_runD [OF assms(2) this] obtain q' where q': "s' = ((l @ q) @ q', [])"
    "\<forall>r e. Reject r e \<notin> set q'"
    by blast
  from q q' have "s' = (l @ (q @ q'), []) \<and> (\<forall>r e. Reject r e \<notin> set (q @ q'))" by simp
  then show "\<exists>q. s' = (l @ q, []) \<and> (\<forall>r e. Reject r e \<notin> set q)" by blast
qed

text \<open>
  When \<^verbatim>\<open>Promise.all\<close> resolves, no callback is left and no fetch was rejected.
\<close>

lemma clean_run_promise_all: "clean_run (promise_all_buffers nv cur bs)"
  unfolding clean_run_def
proof (intro allI impI)
  fix l xs s'
  assume run: "promise_all_buffers nv cur bs (l, []) = (Inr xs, s')"
  let ?names = "map (\<lambda>b. Dispatch (Buffer_name b)) bs"
  from start_callbacks_log [of nv 0 bs l "[]"] obtain cbs
    where st: "start_callbacks nv 0 bs (l, []) = (l @ ?names, cbs)"
    by auto
  obtain l' bg' where s': "s' = (l', bg')" by (cases s')
  from run st s'
  have "await_all nv cur (l @ ?names, cbs) (replicate (length bs) None) = (Inr xs, (l', bg'))"
    by (simp add: promise_all_buffers_def)
  from await_all_turns [OF this] obtain u where u: "l' = (l @ ?names) @ u" "bg' = []"
    "\<forall>r e. Reject r e \<notin> set u"
    by auto
  with s' have "s' = (l @ (?names @ u), []) \<and> (\<forall>r e. Reject r e \<notin> set (?names @ u))"
    by auto
  then show "\<exists>q. s' = (l @ q, []) \<and> (\<forall>r e. Reject r e \<notin> set q)" by blast
qed

lemma clean_run_snapshot_session: "clean_run (snapshot_session nv inst)"
  unfolding snapshot_session_def call_defs
  by (intro clean_run_bind clean_run_await clean_run_return clean_run_promise_all)

lemma snapshot_rejection_sets_error:
  assumes "Reject r e \<in> set (snd (getNeovimInstanceDetails fs nv p))"
  shows "error (fst (getNeovimInstanceDetails fs nv p)) \<noteq> None"
proof (cases "getNeovimInstance fs p")
  case None
  with assms show ?thesis by (simp add: getNeovimInstanceDetails_def)
next
  case (Some inst)
  let ?l = "[Dispatch (Attach (socket inst)), Resolve (Attach (socket inst))]"
  show ?thesis
  proof (cases "on_attach nv [] (socket inst)")
    case (Inl e')
    with Some show ?thesis by (simp add: getNeovimInstanceDetails_def run_session)
  next
    case (Inr u)
    obtain out s' where body: "snapshot_session nv inst (?l, []) = (out, s')"
      by (cases "snapshot_session nv inst (?l, [])")
    show ?thesis
    proof (cases out)
      case (Inl e')
      with Some Inr body show ?thesis by (simp add: getNeovimInstanceDetails_def run_session)
    next
      case (Inr x)
      with body clean_runD [OF clean_run_snapshot_session, of nv inst ?l x s']
      obtain q where "s' = (?l @ q, [])" "\<forall>r e. Reject r e \<notin> set q" by blast
      with assms Some \<open>on_attach nv [] (socket inst) = Inr u\<close> body Inr show ?thesis
        by (simp add: getNeovimInstanceDetails_def run_session)
    qed
  qed
qed

section \<open>The shape of a snapshot\<close>

text \<open>
  C3. When a remote call of a snapshot is rejected, \<^verbatim>\<open>attach\<close> included, the
  snapshot has its \<open>error\<close> field set; and a snapshot whose \<open>error\<close> field is set
  has no working directory, no current file, no buffer list and no cursor position. When
  the instance is found, \<^verbatim>\<open>attach\<close> succeeds and the session throws, the snapshot is
  the instance with the error text and nothing else.
\<close>

theorem snapshot_error_excludes_fields:
  "(Reject r e' \<in> set (snd (getNeovimInstanceDetails fs nv p)) \<longrightarrow>
      error (fst (getNeovimInstanceDetails fs nv p)) \<noteq> None) \<and>
   (error (fst (getNeovimInstanceDetails fs nv p)) \<noteq> None \<longrightarrow>
      workingDirectory (fst (getNeovimInstanceDetails fs nv p)) = None \<and>
      currentFile (fst (getNeovimInstanceDetails fs nv p)) = None \<and>
      buffers (fst (getNeovimInstanceDetails fs nv p)) = None \<and>
      cursorPosition (fst (getNeovimInstanceDetails fs nv p)) = None) \<and>
   (getNeovimInstance fs p = Some inst \<and> on_attach nv [] (socket inst) = Inr () \<and>
    fst (snapshot_session nv inst
           ([Dispatch (Attach (socket inst)), Resolve (Attach (socket inst))], [])) = Inl e \<longrightarrow>
      fst (getNeovimInstanceDetails fs nv p) =
        \<lparr>instance_of = inst, workingDirectory = None, currentFile = None, buffers = None,
         cursorPosition = None,
         error = Some (''Failed to connect to Neovim instance: '' @ error_message e)\<rparr>)"
proof (intro conjI impI)
  assume "Reject r e' \<in> set (snd (getNeovimInstanceDetails fs nv p))"
  then show "error (fst (getNeovimInstanceDetails fs nv p)) \<noteq> None"
    by (rule snapshot_rejection_sets_error)
next
  assume "getNeovimInstance fs p = Some inst \<and> on_attach nv [] (socket inst) = Inr () \<and>
    fst (snapshot_session nv inst
           ([Dispatch (Attach (socket inst)), Resolve (Attach (socket inst))], [])) = Inl e"
  then show "fst (getNeovimInstanceDetails fs nv p) =
        \<lparr>instance_of = inst, workingDirectory = None, currentFile = None, buffers = None,
         cursorPosition = None,
         error = Some (''Failed to connect to Neovim instance: '' @ error_message e)\<rparr>"
    by (simp add: getNeovimInstanceDetails_def run_session_result)
next
  assume err: "error (fst (getNeovimInstanceDetails fs nv p)) \<noteq> None"
  have "workingDirectory (fst (getNeovimInstanceDetails fs nv p)) = None \<and>
      currentFile (fst (getNeovimInstanceDetails fs nv p)) = None \<and>
      buffers (fst (getNeovimInstanceDetails fs nv p)) = None \<and>
      cursorPosition (fst (getNeovimInstanceDetails fs nv p)) = None"
  proof (cases "getNeovimInstance fs p")
    case None
    then show ?thesis by (simp add: getNeovimInstanceDetails_def)
  next
    case (Some inst)
    let ?s = "([Dispatch (Attach (socket inst)), Resolve (Attach (socket inst))], [])"
    show ?thesis
    proof (cases "on_attach nv [] (socket inst)")
      case (Inl e)
      with Some show ?thesis by (simp add: getNeovimInstanceDetails_def run_session_result)
    next
      case (Inr u)
      obtain out s' where body: "snapshot_session nv inst ?s = (out, s')"
        by (cases "snapshot_session nv inst ?s")
      show ?thesis
      proof (cases out)
        case (Inl e)
        with Some Inr body show ?thesis
          by (simp add: getNeovimInstanceDetails_def run_session_result)
      next
        case (Inr r)
        with body have "error r = None" by (auto dest: snapshot_session_Inr)
        with Some \<open>on_attach nv [] (socket inst) = Inr u\<close> body Inr err show ?thesis
          by (simp add: getNeovimInstanceDetails_def run_session_result)
      qed
    qed
  qed
  then show "workingDirectory (fst (getNeovimInstanceDetails fs nv p)) = None"
    and "currentFile (fst (getNeovimInstanceDetails fs nv p)) = None"
    and "buffers (fst (getNeovimInstanceDetails fs nv p)) = None"
    and "cursorPosition (fst (getNeovimInstanceDetails fs nv p)) = None" by simp_all
qed

theorem snapshot_error_excludes_fields_witness:
  "Reject Call_getcwd (Error ''boom'') \<in>
     set (snd (getNeovimInstanceDetails (sockets_dir [''nvim-1257.sock'']) failing_getcwd 1257)) \<and>
   error (fst (getNeovimInstanceDetails (sockets_dir [''nvim-1257.sock'']) failing_getcwd 1257)) \<noteq> None \<and>
   workingDirectory (fst (getNeovimInstanceDetails (sockets_dir [''nvim-1257.sock'']) failing_getcwd 1257)) = None \<and>
   buffers (fst (getNeovimInstanceDetails (sockets_dir [''nvim-1257.sock'']) failing_getcwd 1257)) = None \<and>
   fst (getNeovimInstanceDetails (sockets_dir [''nvim-1257.sock'']) failing_getcwd 1257) =
     \<lparr>instance_of = \<lparr>socket = ''/tmp/nvim-1257.sock'', pid = 1257\<rparr>, workingDirectory = None,
      currentFile = None, buffers = None, cursorPosition = None,
      error = Some ''Failed to connect to Neovim instance: boom''\<rparr>"
  using snapshot_error_excludes_fields [where fs = "sockets_dir [''nvim-1257.sock'']"
      and nv = failing_getcwd and p = 1257 and r = Call_getcwd and e' = "Error ''boom''"
      and inst = "\<lparr>socket = ''/tmp/nvim-1257.sock'', pid = 1257\<rparr>" and e = "Error ''boom''"]
  by (simp add: snapshot_failing_getcwd)


end
